theory Spec2Isabelle
  imports Main
begin

section \<open>APILens: the monitoring service (apis.service.ts) and the changelog schema\<close>

text \<open>
  The theory embeds \<^verbatim>\<open>ApisService\<close> of
  \<^verbatim>\<open>src/api/src/modules/apis/apis.service.ts\<close> and the index declarations of
  \<^verbatim>\<open>src/api/src/Schemas/changelog-schema.ts\<close>.

  The three mongoose collections and the HTTP requests sent are one explicit state
  (\<open>world\<close>). Whatever the environment decides is an argument: the clock, the answer
  of the remote server, the verdict of the change detector, the identifier given to a new
  document, and, for every write to the store, whether that write is rejected.
  A promise that rejects is the left summand of a sum type; the state that the writes
  made before the rejection have produced is returned next to it.
\<close>

subsection \<open>Documents\<close>

type_synonym object_id = string

text \<open>
  \<^verbatim>\<open>OpenAPISpec\<close> (\<^verbatim>\<open>src/types/api.type\<close>, not among the sources)
  is taken as the part of the fetched document that the service reads:
  \<open>info_version\<close> is \<^verbatim>\<open>spec.info?.version\<close> (\<open>None\<close> when
  \<^verbatim>\<open>info\<close> or \<^verbatim>\<open>version\<close> is absent), \<open>path_keys\<close> is
  \<^verbatim>\<open>Object.keys(spec.paths || {})\<close>, \<open>schema_keys\<close> is
  \<^verbatim>\<open>Object.keys(spec.components?.schemas || {})\<close>, \<open>spec_size\<close> is
  \<^verbatim>\<open>JSON.stringify(spec).length\<close>, and \<open>spec_body\<close> stands for the rest of the
  document, which the service only stores and hands to the change detector. A response
  whose body is \<^verbatim>\<open>null\<close> is outside this type.
\<close>

record 'd openapi_spec =
  info_version :: "string option"
  path_keys :: "string list"
  schema_keys :: "string list"
  spec_size :: nat
  spec_body :: 'd

text \<open>JavaScript truthiness of an optional string: \<^verbatim>\<open>undefined\<close> and \<^verbatim>\<open>''\<close> are falsy.\<close>

definition truthy :: "string option \<Rightarrow> bool" where
  "truthy v = (case v of None \<Rightarrow> False | Some s \<Rightarrow> s \<noteq> [])"

text \<open>\<^verbatim>\<open>a || b\<close> on an optional string with a string default.\<close>

definition or_else :: "string option \<Rightarrow> string \<Rightarrow> string" where
  "or_else v d = (case v of None \<Rightarrow> d | Some s \<Rightarrow> if s \<noteq> [] then s else d)"

datatype health = Healthy | Checking | Unhealthy | Error

text \<open>
  The \<^verbatim>\<open>Api\<close> document (\<^verbatim>\<open>src/Schemas/api.schema\<close> is not among the sources;
  the fields are the ones \<^verbatim>\<open>registerApi\<close> writes). Dates are milliseconds since the
  epoch, as \<^verbatim>\<open>getTime()\<close> returns them. The \<^verbatim>\<open>createdAt\<close> and
  \<^verbatim>\<open>updatedAt\<close> stamps that mongoose maintains are left out: the service never
  decides on them.
\<close>

record 'd api =
  api_id :: object_id
  apiName :: string
  openApiUrl :: string
  api_type :: string
  version :: string
  latestSpec :: "'d openapi_spec"
  lastChecked :: "int option"
  userId :: object_id
  checkFrequency :: string
  tags :: "string list"
  description :: "string option"
  healthStatus :: health
  lastHealthCheck :: "int option"
  lastError :: "string option"
  changeCount :: nat
  isActive :: bool

record 'd api_snapshot =
  snap_apiId :: object_id
  snap_version :: string
  snap_spec :: "'d openapi_spec"
  detectedAt :: int
  endpointCount :: nat
  schemaCount :: nat
  specSize :: nat

record changelog =
  cl_apiId :: object_id
  previousVersion :: string
  newVersion :: string
  diffSummary :: string
  timestamp :: int

text \<open>An HTTP GET as \<^verbatim>\<open>axios.get(url, { timeout, headers })\<close> sends it.\<close>

record http_get =
  req_url :: string
  req_timeout :: nat
  req_user_agent :: string

definition get_request :: "string \<Rightarrow> http_get" where
  "get_request url = \<lparr>req_url = url, req_timeout = 10000, req_user_agent = ''API-Lens/1.0''\<rparr>"

record 'd world =
  apis :: "'d api list"
  snapshots :: "'d api_snapshot list"
  changelogs :: "changelog list"
  fetchLog :: "http_get list"

subsection \<open>CheckScheduler: getCheckIntervalMs and getApisToCheck\<close>

text \<open>
  \<^verbatim>\<open>intervals[frequency]\<close> is a property read on an object literal. A key that is not
  one of the five own properties is looked up on \<^verbatim>\<open>Object.prototype\<close>, whose members
  are functions (and, for \<^verbatim>\<open>__proto__\<close>, the prototype object itself), not numbers.
  The value read is therefore a number, an inherited member, or \<^verbatim>\<open>undefined\<close>.
\<close>

datatype js_value = Number int | Inherited

definition intervals :: "(string \<times> int) list" where
  "intervals =
    [(''5m'', 5 * 60 * 1000),
     (''15m'', 15 * 60 * 1000),
     (''1h'', 60 * 60 * 1000),
     (''6h'', 6 * 60 * 60 * 1000),
     (''1d'', 24 * 60 * 60 * 1000)]"

text \<open>The property names of \<^verbatim>\<open>Object.prototype\<close> (ECMAScript, with Annex B).\<close>

definition object_prototype_keys :: "string list" where
  "object_prototype_keys =
    [''constructor'', ''__defineGetter__'', ''__defineSetter__'', ''hasOwnProperty'',
     ''__lookupGetter__'', ''__lookupSetter__'', ''isPrototypeOf'', ''propertyIsEnumerable'',
     ''toString'', ''valueOf'', ''__proto__'', ''toLocaleString'']"

definition intervals_get :: "string \<Rightarrow> js_value option" where
  "intervals_get k =
    (case map_of intervals k of
       Some n \<Rightarrow> Some (Number n)
     | None \<Rightarrow> if k \<in> set object_prototype_keys then Some Inherited else None)"

text \<open>Truthiness of the value read: a number is falsy when it is 0, an object never.\<close>

fun js_truthy :: "js_value \<Rightarrow> bool" where
  "js_truthy (Number n) = (n \<noteq> 0)"
| "js_truthy Inherited = True"

definition getCheckIntervalMs :: "string \<Rightarrow> js_value" where
  "getCheckIntervalMs frequency =
    (case intervals_get frequency of
       Some v \<Rightarrow> if js_truthy v then v else Number (60 * 60 * 1000)
     | None \<Rightarrow> Number (60 * 60 * 1000))"

text \<open>
  \<^verbatim>\<open>timeSinceLastCheck >= checkInterval\<close>: a function or an object on the right
  converts to \<^verbatim>\<open>NaN\<close>, and every comparison with \<^verbatim>\<open>NaN\<close> is false.
\<close>

fun js_ge :: "int \<Rightarrow> js_value \<Rightarrow> bool" where
  "js_ge t (Number n) = (t \<ge> n)"
| "js_ge t Inherited = False"

definition needsCheck :: "int \<Rightarrow> 'd api \<Rightarrow> bool" where
  "needsCheck now a =
    (case lastChecked a of
       None \<Rightarrow> True
     | Some lc \<Rightarrow> js_ge (now - lc) (getCheckIntervalMs (checkFrequency a)))"

definition getApisToCheck :: "int \<Rightarrow> 'd world \<Rightarrow> 'd api list" where
  "getApisToCheck now w = filter (needsCheck now) (filter isActive (apis w))"

subsection \<open>The environment of one call\<close>

text \<open>
  A JavaScript error as the service inspects it: \<^verbatim>\<open>error.message\<close>,
  \<^verbatim>\<open>error.code\<close> and \<^verbatim>\<open>error.response\<close> (status and statusText).
\<close>

record js_error =
  err_message :: string
  err_code :: "string option"
  err_response :: "(nat \<times> string) option"

text \<open>
  Modelled from the spec: \<^verbatim>\<open>ChangeDetectorService\<close>
  (\<^verbatim>\<open>change-detector.service.ts\<close>) is not among the sources. Following section 4.1
  of the specification, \<^verbatim>\<open>detectChanges(previousDoc, currentDoc, targetId)\<close> only
  computes a change set (or throws); it writes nothing to the three collections.
  A Change has a kind, a category, a location and a breaking flag (section 3).
\<close>

datatype change_kind = Added | Removed | Modified

datatype change_category = Path | Operation | Parameter | Schema | Response | Other

record change =
  kind :: change_kind
  category :: change_category
  location :: string
  breaking :: bool

record detect_result =
  det_hasChanges :: bool
  det_changes :: "change list"

text \<open>The writes to the store that the service issues, by the place that issues them.\<close>

datatype write_site =
    SaveApi
  | MarkChecking
  | MarkHealthy
  | StoreNewSpec
  | InsertSnapshot
  | TouchLastChecked
  | MarkError
  | DeleteApi
  | DeleteSnapshots
  | DeleteChangelogs

text \<open>
  \<open>now\<close> is the value of every \<^verbatim>\<open>new Date()\<close> of the call (one reading of the
  clock per call), \<open>http\<close> the outcome of \<^verbatim>\<open>axios.get\<close> for a URL,
  \<open>newObjectId\<close> the identifier mongoose gives a new document, and \<open>rejects\<close> says
  which writes the store rejects, and with which error. Reads of the store are taken to
  succeed. \<open>localTZA t isUTC\<close> is the offset of the server's time zone in
  milliseconds, as ECMAScript's \<^verbatim>\<open>LocalTZA(t, isUTC)\<close> gives it: for a UTC time
  value when \<open>isUTC\<close> holds, for a local time value otherwise.
\<close>

record 'd env =
  now :: int
  http :: "string \<Rightarrow> js_error + 'd openapi_spec"
  detectChanges :: "'d openapi_spec \<Rightarrow> 'd openapi_spec \<Rightarrow> object_id \<Rightarrow> js_error + detect_result"
  newObjectId :: object_id
  rejects :: "write_site \<Rightarrow> js_error option"
  localTZA :: "int \<Rightarrow> bool \<Rightarrow> int"

subsection \<open>Store operations\<close>

definition findById :: "object_id \<Rightarrow> 'd world \<Rightarrow> 'd api option" where
  "findById i w = find (\<lambda>a. api_id a = i) (apis w)"

fun update_first :: "('a \<Rightarrow> bool) \<Rightarrow> ('a \<Rightarrow> 'a) \<Rightarrow> 'a list \<Rightarrow> 'a list" where
  "update_first P f [] = []"
| "update_first P f (x # xs) = (if P x then f x # xs else x # update_first P f xs)"

fun remove_first :: "('a \<Rightarrow> bool) \<Rightarrow> 'a list \<Rightarrow> 'a list" where
  "remove_first P [] = []"
| "remove_first P (x # xs) = (if P x then xs else x # remove_first P xs)"

text \<open>
  \<^verbatim>\<open>apiModel.findByIdAndUpdate(id, fields)\<close>: the document with that identifier, if
  there is one, gets the fields; a rejected write changes nothing and throws.
\<close>

definition findByIdAndUpdate ::
  "js_error option \<Rightarrow> object_id \<Rightarrow> ('d api \<Rightarrow> 'd api) \<Rightarrow> 'd world \<Rightarrow> js_error + 'd world" where
  "findByIdAndUpdate rejected i upd w =
    (case rejected of
       Some e \<Rightarrow> Inl e
     | None \<Rightarrow> Inr (w\<lparr>apis := update_first (\<lambda>a. api_id a = i) upd (apis w)\<rparr>))"

subsection \<open>createSnapshot\<close>

text \<open>
  The \<^verbatim>\<open>try\<close> block holds the insert; the \<^verbatim>\<open>catch\<close> block logs and returns, so
  the caller never sees a rejected insert.
\<close>

definition createSnapshot :: "'d env \<Rightarrow> object_id \<Rightarrow> 'd openapi_spec \<Rightarrow> 'd world \<Rightarrow> 'd world" where
  "createSnapshot io apiId spec w =
    (case rejects io InsertSnapshot of
       Some e \<Rightarrow> w
     | None \<Rightarrow>
         w\<lparr>snapshots := snapshots w @
           [\<lparr>snap_apiId = apiId,
             snap_version = or_else (info_version spec) ''unknown'',
             snap_spec = spec,
             detectedAt = now io,
             endpointCount = length (path_keys spec),
             schemaCount = length (schema_keys spec),
             specSize = spec_size spec\<rparr>]\<rparr>)"

subsection \<open>checkApiForChanges\<close>

record check_result =
  hasChanges :: bool
  changes :: "change list option"
  res_newVersion :: "string option"

definition no_changes :: check_result where
  "no_changes = \<lparr>hasChanges = False, changes = None, res_newVersion = None\<rparr>"

text \<open>The \<^verbatim>\<open>catch\<close> block of \<^verbatim>\<open>checkApiForChanges\<close> (lines 194 to 205).\<close>

definition check_catch ::
  "'d env \<Rightarrow> object_id \<Rightarrow> js_error \<Rightarrow> 'd world \<Rightarrow> (js_error + check_result) \<times> 'd world" where
  "check_catch io apiId error w =
    (case findByIdAndUpdate (rejects io MarkError) apiId
            (\<lambda>a. a\<lparr>healthStatus := Error, lastHealthCheck := Some (now io),
                    lastError := Some (err_message error)\<rparr>) w of
       Inl e \<Rightarrow> (Inl e, w)
     | Inr w' \<Rightarrow> (Inr no_changes, w'))"

text \<open>
  The body follows the source statement by statement. \<open>api\<close> is the document read at
  line 132; the later writes take \<^verbatim>\<open>api.version\<close> and \<^verbatim>\<open>api.changeCount\<close>
  from it, not from the store.
\<close>

definition checkApiForChanges ::
  "'d env \<Rightarrow> object_id \<Rightarrow> 'd world \<Rightarrow> (js_error + check_result) \<times> 'd world" where
  "checkApiForChanges io apiId w =
    (case findById apiId w of
       None \<Rightarrow> (Inr no_changes, w)
     | Some api \<Rightarrow>
        if \<not> isActive api then (Inr no_changes, w)
        else
          (case findByIdAndUpdate (rejects io MarkChecking) apiId
                  (\<lambda>a. a\<lparr>healthStatus := Checking, lastHealthCheck := Some (now io)\<rparr>) w of
             Inl e \<Rightarrow> check_catch io apiId e w
           | Inr w1 \<Rightarrow>
              let w2 = w1\<lparr>fetchLog := fetchLog w1 @ [get_request (openApiUrl api)]\<rparr> in
              (case http io (openApiUrl api) of
                 Inl e \<Rightarrow> check_catch io apiId e w2
               | Inr newSpec \<Rightarrow>
                  (case detectChanges io (latestSpec api) newSpec apiId of
                     Inl e \<Rightarrow> check_catch io apiId e w2
                   | Inr changeResult \<Rightarrow>
                      (case findByIdAndUpdate (rejects io MarkHealthy) apiId
                              (\<lambda>a. a\<lparr>healthStatus := Healthy, lastChecked := Some (now io),
                                      lastHealthCheck := Some (now io), lastError := None\<rparr>) w2 of
                         Inl e \<Rightarrow> check_catch io apiId e w2
                       | Inr w3 \<Rightarrow>
                          if det_hasChanges changeResult then
                            (case findByIdAndUpdate (rejects io StoreNewSpec) apiId
                                    (\<lambda>a. a\<lparr>latestSpec := newSpec,
                                            version := or_else (info_version newSpec) (version api),
                                            changeCount := changeCount api + 1\<rparr>) w3 of
                               Inl e \<Rightarrow> check_catch io apiId e w3
                             | Inr w4 \<Rightarrow>
                                (Inr \<lparr>hasChanges = True,
                                      changes = Some (det_changes changeResult),
                                      res_newVersion = info_version newSpec\<rparr>,
                                 createSnapshot io apiId newSpec w4))
                          else
                            (case findByIdAndUpdate (rejects io TouchLastChecked) apiId
                                    (\<lambda>a. a\<lparr>lastChecked := Some (now io)\<rparr>) w3 of
                               Inl e \<Rightarrow> check_catch io apiId e w3
                             | Inr w4 \<Rightarrow> (Inr no_changes, w4)))))))"

subsection \<open>registerApi\<close>

record CreateApiDto =
  dto_apiName :: string
  dto_openApiUrl :: string
  dto_type :: "string option"
  dto_checkFrequency :: "string option"
  dto_tags :: "string list option"
  dto_description :: "string option"

text \<open>
  The three errors the \<^verbatim>\<open>catch\<close> block of \<^verbatim>\<open>registerApi\<close> throws:
  \<^verbatim>\<open>Cannot connect to API URL. ...\<close>, \<^verbatim>\<open>API returned <status>: <statusText>\<close> and
  \<^verbatim>\<open>Failed to register API: <message>\<close>.
\<close>

datatype register_failure =
    CannotConnect
  | ApiReturned nat string
  | FailedToRegister string

definition register_catch :: "js_error \<Rightarrow> register_failure" where
  "register_catch error =
    (if err_code error = Some ''ENOTFOUND'' \<or> err_code error = Some ''ECONNREFUSED''
     then CannotConnect
     else case err_response error of
            Some (status, statusText) \<Rightarrow>
              if status \<ge> 400 then ApiReturned status statusText
              else FailedToRegister (err_message error)
          | None \<Rightarrow> FailedToRegister (err_message error))"

definition missing_version :: js_error where
  "missing_version =
    \<lparr>err_message = ''Invalid OpenAPI spec - missing version information'',
     err_code = None, err_response = None\<rparr>"

text \<open>
  \<^verbatim>\<open>toResponseDto\<close> copies fields of the saved document; the saved document itself
  is returned here.
\<close>

definition registerApi ::
  "'d env \<Rightarrow> CreateApiDto \<Rightarrow> object_id \<Rightarrow> 'd world \<Rightarrow> (register_failure + 'd api) \<times> 'd world" where
  "registerApi io dto uid w =
    (let w1 = w\<lparr>fetchLog := fetchLog w @ [get_request (dto_openApiUrl dto)]\<rparr> in
     case http io (dto_openApiUrl dto) of
       Inl e \<Rightarrow> (Inl (register_catch e), w1)
     | Inr data \<Rightarrow>
        if \<not> truthy (info_version data) then (Inl (register_catch missing_version), w1)
        else
          let api = \<lparr>api_id = newObjectId io,
                     apiName = dto_apiName dto,
                     openApiUrl = dto_openApiUrl dto,
                     api_type = or_else (dto_type dto) ''openapi'',
                     version = the (info_version data),
                     latestSpec = data,
                     lastChecked = Some (now io),
                     userId = uid,
                     checkFrequency = or_else (dto_checkFrequency dto) ''1h'',
                     tags = (case dto_tags dto of None \<Rightarrow> [] | Some ts \<Rightarrow> ts),
                     description = dto_description dto,
                     healthStatus = Healthy,
                     lastHealthCheck = Some (now io),
                     lastError = None,
                     changeCount = 0,
                     isActive = True\<rparr>
          in (case rejects io SaveApi of
                Some e \<Rightarrow> (Inl (register_catch e), w1)
              | None \<Rightarrow>
                 (Inr api, createSnapshot io (api_id api) data (w1\<lparr>apis := apis w1 @ [api]\<rparr>))))"

subsection \<open>deleteApi\<close>

datatype delete_failure = NotFoundException | ForbiddenException | Rejected js_error

text \<open>
  \<^verbatim>\<open>Promise.all\<close> starts the three deletions together: each one that the store accepts
  takes effect, and the call rejects when one of them is rejected (here with the error of
  the first rejected deletion in the order of the array).
\<close>

definition deleteApi ::
  "'d env \<Rightarrow> object_id \<Rightarrow> object_id \<Rightarrow> 'd world \<Rightarrow> (delete_failure + unit) \<times> 'd world" where
  "deleteApi io i uid w =
    (case findById i w of
       None \<Rightarrow> (Inl NotFoundException, w)
     | Some api \<Rightarrow>
        if userId api \<noteq> uid then (Inl ForbiddenException, w)
        else
          let w1 = (case rejects io DeleteApi of
                      None \<Rightarrow> w\<lparr>apis := remove_first (\<lambda>a. api_id a = i) (apis w)\<rparr>
                    | Some e \<Rightarrow> w);
              w2 = (case rejects io DeleteSnapshots of
                      None \<Rightarrow> w1\<lparr>snapshots := filter (\<lambda>s. snap_apiId s \<noteq> i) (snapshots w1)\<rparr>
                    | Some e \<Rightarrow> w1);
              w3 = (case rejects io DeleteChangelogs of
                      None \<Rightarrow> w2\<lparr>changelogs := filter (\<lambda>c. cl_apiId c \<noteq> i) (changelogs w2)\<rparr>
                    | Some e \<Rightarrow> w2)
          in (case List.map_filter (rejects io) [DeleteApi, DeleteSnapshots, DeleteChangelogs] of
                [] \<Rightarrow> (Inr (), w3)
              | e # _ \<Rightarrow> (Inl (Rejected e), w3)))"

subsection \<open>getApiStats\<close>


text \<open>
  ECMAScript's time arithmetic: the day number and the time within the day of a time
  value, and the conversions between UTC and local time values.
\<close>

definition msPerDay :: int where
  "msPerDay = 86400000"

definition Day :: "int \<Rightarrow> int" where
  "Day t = t div msPerDay"

definition TimeWithinDay :: "int \<Rightarrow> int" where
  "TimeWithinDay t = t mod msPerDay"

definition LocalTime :: "'d env \<Rightarrow> int \<Rightarrow> int" where
  "LocalTime io t = t + localTZA io t True"

definition UTC :: "'d env \<Rightarrow> int \<Rightarrow> int" where
  "UTC io t = t - localTZA io t False"

text \<open>
  \<^verbatim>\<open>sevenDaysAgo = new Date(); sevenDaysAgo.setDate(sevenDaysAgo.getDate() - 7)\<close>.
  \<^verbatim>\<open>setDate\<close> works on the local time value \<open>t\<close>: the new date is
  \<^verbatim>\<open>MakeDate(MakeDay(YearFromTime(t), MonthFromTime(t), dt), TimeWithinDay(t))\<close>
  with \<^verbatim>\<open>dt = DateFromTime(t) - 7\<close>, and \<^verbatim>\<open>MakeDay\<close> of the year, the month
  and a day of the month \<^verbatim>\<open>dt\<close> is the day number of the first of that month plus
  \<^verbatim>\<open>dt - 1\<close>, which is here the day number of \<open>t\<close> minus 7. The result is
  converted back to UTC with the offset that holds at the new local time, so the window
  is seven local calendar days: 168 hours, or an hour less or more when the clocks
  change in between.
\<close>

definition sevenDaysAgo :: "'d env \<Rightarrow> int" where
  "sevenDaysAgo io =
    (let t = LocalTime io (now io);
         newDate = (Day t - 7) * msPerDay + TimeWithinDay t
     in UTC io newDate)"

definition countDocuments :: "('a \<Rightarrow> bool) \<Rightarrow> 'a list \<Rightarrow> nat" where
  "countDocuments query coll = length (filter query coll)"


subsection \<open>The changelog collection and its indexes\<close>

datatype changelog_field = F_apiId | F_previousVersion | F_newVersion | F_timestamp

datatype field_value = Str string | Date int

fun field_of :: "changelog_field \<Rightarrow> changelog \<Rightarrow> field_value" where
  "field_of F_apiId c = Str (cl_apiId c)"
| "field_of F_previousVersion c = Str (previousVersion c)"
| "field_of F_newVersion c = Str (newVersion c)"
| "field_of F_timestamp c = Date (timestamp c)"

record index_decl =
  idx_fields :: "changelog_field list"
  idx_unique :: bool

text \<open>
  The indexes that \<^verbatim>\<open>changelog-schema.ts\<close> declares: the two \<^verbatim>\<open>index: true\<close>
  properties and the three \<^verbatim>\<open>ChangelogSchema.index\<close> calls (sort directions left out).
\<close>

definition ChangelogSchema_indexes :: "index_decl list" where
  "ChangelogSchema_indexes =
    [\<lparr>idx_fields = [F_apiId], idx_unique = False\<rparr>,
     \<lparr>idx_fields = [F_timestamp], idx_unique = False\<rparr>,
     \<lparr>idx_fields = [F_apiId, F_timestamp], idx_unique = False\<rparr>,
     \<lparr>idx_fields = [F_apiId, F_previousVersion, F_newVersion], idx_unique = True\<rparr>,
     \<lparr>idx_fields = [F_timestamp], idx_unique = False\<rparr>]"

definition index_key :: "index_decl \<Rightarrow> changelog \<Rightarrow> field_value list" where
  "index_key idx c = map (\<lambda>f. field_of f c) (idx_fields idx)"

text \<open>
  The document store, as section 6 of the specification takes it: an insert that would
  give two documents the same key under an index declared unique is rejected (a duplicate
  key error) and stores nothing.
\<close>

definition violates :: "index_decl list \<Rightarrow> changelog \<Rightarrow> changelog list \<Rightarrow> bool" where
  "violates idxs c coll =
    list_ex (\<lambda>idx. idx_unique idx \<and> list_ex (\<lambda>c'. index_key idx c' = index_key idx c) coll) idxs"

datatype store_error = DuplicateKey

definition changelog_insert :: "changelog \<Rightarrow> changelog list \<Rightarrow> store_error + changelog list" where
  "changelog_insert c coll =
    (if violates ChangelogSchema_indexes c coll then Inl DuplicateKey else Inr (coll @ [c]))"

text \<open>The collection after an attempted insert, whether it was accepted or not.\<close>

definition after_insert :: "changelog list \<Rightarrow> changelog \<Rightarrow> changelog list" where
  "after_insert coll c = (case changelog_insert c coll of Inl e \<Rightarrow> coll | Inr coll' \<Rightarrow> coll')"

text \<open>A version transition: target, previous version, new version.\<close>

definition transition :: "changelog \<Rightarrow> object_id \<times> string \<times> string" where
  "transition c = (cl_apiId c, previousVersion c, newVersion c)"

subsection \<open>Concrete documents for the scenarios\<close>

text \<open>
  The scenario of section 8 of the specification: a target registered with version
  \<^verbatim>\<open>1.0.0\<close> and no paths, whose next fetch returns version \<^verbatim>\<open>1.0.0\<close> with the
  path \<^verbatim>\<open>/users\<close>.
\<close>

definition spec_v1 :: "unit openapi_spec" where
  "spec_v1 = \<lparr>info_version = Some ''1.0.0'', path_keys = [], schema_keys = [],
              spec_size = 52, spec_body = ()\<rparr>"

definition spec_users :: "unit openapi_spec" where
  "spec_users = \<lparr>info_version = Some ''1.0.0'', path_keys = [''/users''], schema_keys = [],
                 spec_size = 77, spec_body = ()\<rparr>"

definition spec_unversioned :: "unit openapi_spec" where
  "spec_unversioned = \<lparr>info_version = None, path_keys = [''/users''], schema_keys = [],
                       spec_size = 41, spec_body = ()\<rparr>"

definition petstore :: "unit api" where
  "petstore =
    \<lparr>api_id = ''a1'', apiName = ''petstore'', openApiUrl = ''https://petstore.test/openapi.json'',
     api_type = ''openapi'', version = ''1.0.0'', latestSpec = spec_v1, lastChecked = Some 0,
     userId = ''u1'', checkFrequency = ''1h'', tags = [], description = None,
     healthStatus = Healthy, lastHealthCheck = Some 0, lastError = None, changeCount = 0,
     isActive = True\<rparr>"

definition baseline :: "unit api_snapshot" where
  "baseline =
    \<lparr>snap_apiId = ''a1'', snap_version = ''1.0.0'', snap_spec = spec_v1, detectedAt = 0,
     endpointCount = 0, schemaCount = 0, specSize = 52\<rparr>"

definition world1 :: "unit world" where
  "world1 = \<lparr>apis = [petstore], snapshots = [baseline], changelogs = [], fetchLog = []\<rparr>"

definition users_added :: detect_result where
  "users_added =
    \<lparr>det_hasChanges = True,
     det_changes = [\<lparr>kind = Added, category = Path, location = ''/users'', breaking = False\<rparr>]\<rparr>"

definition env1 :: "unit env" where
  "env1 =
    \<lparr>now = 3600000,
     http = (\<lambda>url. Inr spec_users),
     detectChanges = (\<lambda>previousDoc currentDoc targetId. Inr users_added),
     newObjectId = ''a2'',
     rejects = (\<lambda>site. None),
     localTZA = (\<lambda>t isUTC. 0)\<rparr>"

definition timeout_error :: js_error where
  "timeout_error =
    \<lparr>err_message = ''timeout of 10000ms exceeded'', err_code = Some ''ECONNABORTED'',
     err_response = None\<rparr>"

definition store_error :: js_error where
  "store_error =
    \<lparr>err_message = ''connection to the store lost'', err_code = None, err_response = None\<rparr>"

definition entry1 :: changelog where
  "entry1 =
    \<lparr>cl_apiId = ''a1'', previousVersion = ''1.0.0'', newVersion = ''1.1.0'',
     diffSummary = ''1 path added'', timestamp = 3600000\<rparr>"





text \<open>
  A server whose clocks went forward by one hour at the UTC time value 500000000.
\<close>

definition summer_time :: "int \<Rightarrow> bool \<Rightarrow> int" where
  "summer_time t isUTC =
    (if isUTC then (if t \<ge> 500000000 then 3600000 else 0)
     else (if t \<ge> 503600000 then 3600000 else 0))"

definition orders_dto :: CreateApiDto where
  "orders_dto =
    \<lparr>dto_apiName = ''orders'', dto_openApiUrl = ''https://orders.test/openapi.json'',
     dto_type = None, dto_checkFrequency = None, dto_tags = None, dto_description = None\<rparr>"

text \<open>The interval map in the words of the specification, in minutes.\<close>

definition intervalFor_minutes :: "string \<Rightarrow> int" where
  "intervalFor_minutes f =
    (if f = ''5m'' then 5 else if f = ''15m'' then 15 else if f = ''1h'' then 60
     else if f = ''6h'' then 360 else if f = ''1d'' then 1440 else 60)"

lemma getCheckIntervalMs_own:
  "f \<notin> set object_prototype_keys \<Longrightarrow>
     getCheckIntervalMs f = Number (intervalFor_minutes f * 60000)"
  by (simp add: getCheckIntervalMs_def intervals_get_def intervals_def intervalFor_minutes_def)

lemma getCheckIntervalMs_inherited:
  "f \<in> set object_prototype_keys \<Longrightarrow> getCheckIntervalMs f = Inherited"
  by (auto simp add: getCheckIntervalMs_def intervals_get_def intervals_def
      object_prototype_keys_def)

lemma due_iff_intervalFor:
  assumes "checkFrequency a \<notin> set object_prototype_keys"
  shows "a \<in> set (getApisToCheck t w) \<longleftrightarrow>
     a \<in> set (apis w) \<and> isActive a \<and>
     (case lastChecked a of None \<Rightarrow> True
      | Some lc \<Rightarrow> t - lc \<ge> intervalFor_minutes (checkFrequency a) * 60000)"
  using assms
  by (auto simp add: getApisToCheck_def needsCheck_def getCheckIntervalMs_own split: option.splits)

lemma inherited_frequency_not_due:
  assumes "checkFrequency a \<in> set object_prototype_keys" and "lastChecked a = Some lc"
  shows "a \<notin> set (getApisToCheck t w)"
  using assms by (simp add: getApisToCheck_def needsCheck_def getCheckIntervalMs_inherited)

text \<open>
  Claim C4 (due selection). An active target is due if and only if it was never checked
  or its interval has elapsed, the interval of any frequency other than the five tokens
  being one hour. The code misses this at a frequency that names a member of
  \<^verbatim>\<open>Object.prototype\<close>: for \<^verbatim>\<open>constructor\<close> the value read from the
  interval table is a function, the comparison with it is false, and a target that was
  checked a whole day ago is not selected, although one hour (the default of the claim)
  has long elapsed. An unknown frequency that names no such member gets the one-hour
  default.
\<close>

theorem getApisToCheck_constructor_frequency:
  "getCheckIntervalMs ''constructor'' = Inherited \<and>
   isActive (petstore\<lparr>checkFrequency := ''constructor''\<rparr>) \<and>
   lastChecked (petstore\<lparr>checkFrequency := ''constructor''\<rparr>) = Some 0 \<and>
   intervalFor_minutes ''constructor'' * 60000 \<le> 86400000 - 0 \<and>
   getApisToCheck 86400000 (world1\<lparr>apis := [petstore\<lparr>checkFrequency := ''constructor''\<rparr>]\<rparr>) = [] \<and>
   getApisToCheck 86400000 (world1\<lparr>apis := [petstore\<lparr>checkFrequency := ''weekly''\<rparr>]\<rparr>)
     = [petstore\<lparr>checkFrequency := ''weekly''\<rparr>]"
  by (simp add: getApisToCheck_def needsCheck_def getCheckIntervalMs_def intervals_get_def
      intervals_def object_prototype_keys_def intervalFor_minutes_def world1_def petstore_def)

subsection \<open>The unique index of the changelog\<close>

lemma violates_iff:
  "violates ChangelogSchema_indexes c coll \<longleftrightarrow> transition c \<in> transition ` set coll"
proof -
  have "violates ChangelogSchema_indexes c coll \<longleftrightarrow>
          (\<exists>c' \<in> set coll. transition c' = transition c)"
    by (auto simp add: violates_def ChangelogSchema_indexes_def index_key_def transition_def
        list_ex_iff)
  also have "\<dots> \<longleftrightarrow> transition c \<in> transition ` set coll"
  proof
    assume "\<exists>c' \<in> set coll. transition c' = transition c"
    then obtain c' where m: "c' \<in> set coll" and e: "transition c' = transition c"
      by blast
    from e [symmetric] m show "transition c \<in> transition ` set coll"
      by (rule image_eqI)
  next
    assume "transition c \<in> transition ` set coll"
    then obtain c' where "c' \<in> set coll" and "transition c = transition c'"
      by (rule imageE)
    then show "\<exists>c' \<in> set coll. transition c' = transition c"
      by (intro bexI [of _ c']) simp_all
  qed
  finally show ?thesis .
qed

lemma after_insert_distinct:
  "distinct (map transition coll) \<Longrightarrow> distinct (map transition (after_insert coll c))"
  by (simp add: after_insert_def changelog_insert_def violates_iff)

lemma foldl_after_insert_distinct:
  "distinct (map transition coll) \<Longrightarrow> distinct (map transition (foldl after_insert coll cs))"
  by (induction cs arbitrary: coll) (simp_all add: after_insert_distinct)

lemma after_insert_member:
  "transition c \<in> transition ` set (after_insert coll c)"
  by (simp add: after_insert_def changelog_insert_def violates_iff)

lemma after_insert_duplicate:
  "transition c' \<in> transition ` set coll \<Longrightarrow> after_insert coll c' = coll"
  by (simp add: after_insert_def changelog_insert_def violates_iff)

lemma distinct_count_le_1:
  "distinct (map f xs) \<Longrightarrow> countDocuments (\<lambda>x. f x = k) xs \<le> 1"
  unfolding countDocuments_def
proof (induction xs)
  case Nil
  then show ?case by simp
next
  case (Cons x xs)
  show ?case
  proof (cases "f x = k")
    case True
    with Cons.prems have "filter (\<lambda>x. f x = k) xs = []"
      by (force simp add: filter_empty_conv image_iff)
    with True show ?thesis by simp
  next
    case False
    with Cons show ?thesis by simp
  qed
qed

lemma distinct_count_eq_1:
  "distinct (map f xs) \<Longrightarrow> k \<in> f ` set xs \<Longrightarrow> countDocuments (\<lambda>x. f x = k) xs = 1"
proof -
  assume d: "distinct (map f xs)" and m: "k \<in> f ` set xs"
  from m have "filter (\<lambda>x. f x = k) xs \<noteq> []"
    by (auto simp add: filter_empty_conv)
  then have "countDocuments (\<lambda>x. f x = k) xs \<ge> 1"
    by (cases "filter (\<lambda>x. f x = k) xs") (simp_all add: countDocuments_def)
  with distinct_count_le_1 [OF d, of k] show ?thesis by simp
qed

text \<open>
  Claim C5 (unique transitions). Whatever inserts have been attempted on the changelog
  collection, starting from the empty one, it holds at most one entry for every triple
  of target, previous version and new version. A second insert with the triple of an
  entry just stored is rejected by the store with a duplicate key error, on the strength
  of the unique index that the schema declares, and exactly one entry with that triple
  is stored afterwards.
\<close>

theorem changelog_transition_unique:
  fixes cs :: "changelog list"
  defines "coll \<equiv> foldl after_insert [] cs"
  shows "(\<forall>k. countDocuments (\<lambda>x. transition x = k) coll \<le> 1) \<and>
         (transition c' = transition c \<longrightarrow>
            changelog_insert c' (after_insert coll c) = Inl DuplicateKey \<and>
            countDocuments (\<lambda>x. transition x = transition c)
              (after_insert (after_insert coll c) c') = 1)"
proof -
  have d: "distinct (map transition coll)"
    unfolding coll_def by (rule foldl_after_insert_distinct) simp
  have d1: "distinct (map transition (after_insert coll c))"
    using d by (rule after_insert_distinct)
  have a: "\<forall>k. countDocuments (\<lambda>x. transition x = k) coll \<le> 1"
    using distinct_count_le_1 [OF d] by blast
  have b: "changelog_insert c' (after_insert coll c) = Inl DuplicateKey \<and>
      countDocuments (\<lambda>x. transition x = transition c) (after_insert (after_insert coll c) c') = 1"
    if eq: "transition c' = transition c"
  proof -
    have m: "transition c' \<in> transition ` set (after_insert coll c)"
      using after_insert_member [of c coll] eq by simp
    then have rej: "changelog_insert c' (after_insert coll c) = Inl DuplicateKey"
      by (simp add: changelog_insert_def violates_iff)
    have same: "after_insert (after_insert coll c) c' = after_insert coll c"
      using m by (rule after_insert_duplicate)
    have "countDocuments (\<lambda>x. transition x = transition c) (after_insert coll c) = 1"
      using d1 after_insert_member [of c coll] by (rule distinct_count_eq_1)
    with rej same show ?thesis by simp
  qed
  from a b show ?thesis by blast
qed

text \<open>
  The same transition written twice, the second time with another summary and a later
  timestamp: the second write is rejected and one record is stored.
\<close>

theorem changelog_transition_unique_witness:
  "transition (entry1\<lparr>diffSummary := ''again'', timestamp := 7200000\<rparr>) = transition entry1 \<and>
   changelog_insert (entry1\<lparr>diffSummary := ''again'', timestamp := 7200000\<rparr>)
     (after_insert (foldl after_insert [] []) entry1) = Inl DuplicateKey \<and>
   countDocuments (\<lambda>x. transition x = transition entry1)
     (after_insert (after_insert (foldl after_insert [] []) entry1)
        (entry1\<lparr>diffSummary := ''again'', timestamp := 7200000\<rparr>)) = 1 \<and>
   after_insert (after_insert [] entry1) (entry1\<lparr>diffSummary := ''again'', timestamp := 7200000\<rparr>)
     = [entry1]"
proof -
  have eq: "transition (entry1\<lparr>diffSummary := ''again'', timestamp := 7200000\<rparr>) = transition entry1"
    by (simp add: transition_def)
  have stored: "after_insert (after_insert [] entry1)
      (entry1\<lparr>diffSummary := ''again'', timestamp := 7200000\<rparr>) = [entry1]"
    by (simp add: after_insert_def changelog_insert_def violates_def ChangelogSchema_indexes_def
        index_key_def entry1_def)
  from eq stored
    changelog_transition_unique [where cs = "[]" and c = entry1
      and c' = "entry1\<lparr>diffSummary := ''again'', timestamp := 7200000\<rparr>"]
  show ?thesis by simp
qed

subsection \<open>Reading the store after a write\<close>

lemma update_first_twice:
  "(\<And>x. P x \<Longrightarrow> P (f x)) \<Longrightarrow>
     update_first P g (update_first P f xs) = update_first P (\<lambda>x. g (f x)) xs"
  by (induction xs) simp_all

lemma find_update_first_same:
  "(\<And>x. P x \<Longrightarrow> P (f x)) \<Longrightarrow> find P (update_first P f xs) = map_option f (find P xs)"
  by (induction xs) simp_all

lemma find_update_first_other:
  "(\<And>x. Q (f x) = Q x) \<Longrightarrow> (\<And>x. P x \<Longrightarrow> \<not> Q x) \<Longrightarrow>
     find Q (update_first P f xs) = find Q xs"
  by (induction xs) simp_all

lemma find_by_id_update_first:
  assumes "\<And>a. api_id (f a) = api_id a"
  shows "find (\<lambda>a. api_id a = j) (update_first (\<lambda>a. api_id a = i) f xs) =
          (if j = i then map_option f (find (\<lambda>a. api_id a = i) xs)
           else find (\<lambda>a. api_id a = j) xs)"
proof (cases "j = i")
  case True
  then show ?thesis
    by (simp add: find_update_first_same assms)
next
  case False
  have "find (\<lambda>a. api_id a = j) (update_first (\<lambda>a. api_id a = i) f xs) =
        find (\<lambda>a. api_id a = j) xs"
    by (rule find_update_first_other) (use False assms in simp_all)
  with False show ?thesis
    by simp
qed

lemma findById_createSnapshot [simp]:
  "findById j (createSnapshot io i spec w) = findById j w"
  by (simp add: findById_def createSnapshot_def split: option.splits)

lemma findById_fetchLog [simp]:
  "findById j (w\<lparr>fetchLog := l\<rparr>) = findById j w"
  by (simp add: findById_def)

lemma findByIdAndUpdate_accepted:
  "findByIdAndUpdate None i f w = Inr (w\<lparr>apis := update_first (\<lambda>a. api_id a = i) f (apis w)\<rparr>)"
  by (simp add: findByIdAndUpdate_def)

lemma findByIdAndUpdate_rejected:
  "findByIdAndUpdate (Some e) i f w = Inl e"
  by (simp add: findByIdAndUpdate_def)

subsection \<open>The paths through checkApiForChanges\<close>

lemma check_skipped:
  "findById apiId w = None \<Longrightarrow> checkApiForChanges io apiId w = (Inr no_changes, w)"
  "findById apiId w = Some api \<Longrightarrow> \<not> isActive api \<Longrightarrow>
     checkApiForChanges io apiId w = (Inr no_changes, w)"
  by (simp_all add: checkApiForChanges_def)

lemma check_with_changes:
  assumes "findById apiId w = Some api" and "isActive api"
    and "http io (openApiUrl api) = Inr newSpec"
    and "detectChanges io (latestSpec api) newSpec apiId = Inr cr"
    and "det_hasChanges cr"
    and "rejects io MarkChecking = None"
    and "rejects io MarkHealthy = None"
    and "rejects io StoreNewSpec = None"
  shows "checkApiForChanges io apiId w =
    (Inr \<lparr>hasChanges = True, changes = Some (det_changes cr),
          res_newVersion = info_version newSpec\<rparr>,
     createSnapshot io apiId newSpec
       (w\<lparr>fetchLog := fetchLog w @ [get_request (openApiUrl api)],
          apis := update_first (\<lambda>a. api_id a = apiId)
              (\<lambda>a. a\<lparr>healthStatus := Healthy, lastChecked := Some (now io),
                      lastHealthCheck := Some (now io), lastError := None,
                      latestSpec := newSpec,
                      version := or_else (info_version newSpec) (version api),
                      changeCount := changeCount api + 1\<rparr>) (apis w)\<rparr>))"
  using assms
  by (simp add: checkApiForChanges_def findByIdAndUpdate_accepted update_first_twice)

lemma check_without_changes:
  assumes "findById apiId w = Some api" and "isActive api"
    and "http io (openApiUrl api) = Inr newSpec"
    and "detectChanges io (latestSpec api) newSpec apiId = Inr cr"
    and "\<not> det_hasChanges cr"
    and "rejects io MarkChecking = None"
    and "rejects io MarkHealthy = None"
    and "rejects io TouchLastChecked = None"
  shows "checkApiForChanges io apiId w =
    (Inr no_changes,
     w\<lparr>fetchLog := fetchLog w @ [get_request (openApiUrl api)],
       apis := update_first (\<lambda>a. api_id a = apiId)
              (\<lambda>a. a\<lparr>healthStatus := Healthy, lastHealthCheck := Some (now io),
                      lastError := None, lastChecked := Some (now io)\<rparr>) (apis w)\<rparr>)"
  using assms
  by (simp add: checkApiForChanges_def findByIdAndUpdate_accepted update_first_twice)

lemma check_fetch_fails:
  assumes "findById apiId w = Some api" and "isActive api"
    and "http io (openApiUrl api) = Inl e"
    and "rejects io MarkChecking = None"
    and "rejects io MarkError = None"
  shows "checkApiForChanges io apiId w =
    (Inr no_changes,
     w\<lparr>fetchLog := fetchLog w @ [get_request (openApiUrl api)],
       apis := update_first (\<lambda>a. api_id a = apiId)
              (\<lambda>a. a\<lparr>healthStatus := Error, lastHealthCheck := Some (now io),
                      lastError := Some (err_message e)\<rparr>) (apis w)\<rparr>)"
  using assms
  by (simp add: checkApiForChanges_def check_catch_def findByIdAndUpdate_accepted
      update_first_twice)

lemma check_update_fails:
  assumes "findById apiId w = Some api" and "isActive api"
    and "http io (openApiUrl api) = Inr newSpec"
    and "detectChanges io (latestSpec api) newSpec apiId = Inr cr"
    and "rejects io MarkChecking = None"
    and "rejects io MarkError = None"
    and "rejects io MarkHealthy = Some e \<or>
         rejects io MarkHealthy = None \<and> det_hasChanges cr \<and> rejects io StoreNewSpec = Some e \<or>
         rejects io MarkHealthy = None \<and> \<not> det_hasChanges cr \<and>
           rejects io TouchLastChecked = Some e"
  shows "\<exists>lc. checkApiForChanges io apiId w =
    (Inr no_changes,
     w\<lparr>fetchLog := fetchLog w @ [get_request (openApiUrl api)],
       apis := update_first (\<lambda>a. api_id a = apiId)
              (\<lambda>a. a\<lparr>lastChecked := lc a, healthStatus := Error,
                      lastHealthCheck := Some (now io),
                      lastError := Some (err_message e)\<rparr>) (apis w)\<rparr>)"
proof -
  consider (h) "rejects io MarkHealthy = Some e"
    | (s) "rejects io MarkHealthy = None" "det_hasChanges cr" "rejects io StoreNewSpec = Some e"
    | (t) "rejects io MarkHealthy = None" "\<not> det_hasChanges cr"
          "rejects io TouchLastChecked = Some e"
    using assms(7) by auto
  then show ?thesis
  proof cases
    case h
    with assms(1-6) have "checkApiForChanges io apiId w =
      (Inr no_changes,
       w\<lparr>fetchLog := fetchLog w @ [get_request (openApiUrl api)],
         apis := update_first (\<lambda>a. api_id a = apiId)
              (\<lambda>a. a\<lparr>lastChecked := lastChecked a, healthStatus := Error,
                      lastHealthCheck := Some (now io),
                      lastError := Some (err_message e)\<rparr>) (apis w)\<rparr>)"
      by (simp add: checkApiForChanges_def check_catch_def findByIdAndUpdate_accepted
          findByIdAndUpdate_rejected update_first_twice)
    then show ?thesis by (rule exI [of _ lastChecked])
  next
    case s
    with assms(1-6) have "checkApiForChanges io apiId w =
      (Inr no_changes,
       w\<lparr>fetchLog := fetchLog w @ [get_request (openApiUrl api)],
         apis := update_first (\<lambda>a. api_id a = apiId)
              (\<lambda>a. a\<lparr>lastChecked := Some (now io), healthStatus := Error,
                      lastHealthCheck := Some (now io),
                      lastError := Some (err_message e)\<rparr>) (apis w)\<rparr>)"
      by (simp add: checkApiForChanges_def check_catch_def findByIdAndUpdate_accepted
          findByIdAndUpdate_rejected update_first_twice)
    then show ?thesis by (rule exI [of _ "\<lambda>a. Some (now io)"])
  next
    case t
    with assms(1-6) have "checkApiForChanges io apiId w =
      (Inr no_changes,
       w\<lparr>fetchLog := fetchLog w @ [get_request (openApiUrl api)],
         apis := update_first (\<lambda>a. api_id a = apiId)
              (\<lambda>a. a\<lparr>lastChecked := Some (now io), healthStatus := Error,
                      lastHealthCheck := Some (now io),
                      lastError := Some (err_message e)\<rparr>) (apis w)\<rparr>)"
      by (simp add: checkApiForChanges_def check_catch_def findByIdAndUpdate_accepted
          findByIdAndUpdate_rejected update_first_twice)
    then show ?thesis by (rule exI [of _ "\<lambda>a. Some (now io)"])
  qed
qed

subsection \<open>Checks that detect changes\<close>

text \<open>
  Claim C1 (a check that detects changes), as amended. When the target is active, the
  fetch and the detector succeed, the detector reports changes and the store accepts the
  target updates, the check returns \<^verbatim>\<open>hasChanges = true\<close> with the fetched
  version; the stored specification is the fetched document; the stored version is the
  fetched \<^verbatim>\<open>info.version\<close> when that is a non-empty string and the old version
  otherwise; \<^verbatim>\<open>changeCount\<close> is the count read at the start of the check plus one;
  exactly one Snapshot is appended when the store accepts the snapshot insert and none
  when it rejects it; and the check itself adds nothing to the changelog collection.
\<close>

theorem check_with_changes_effect:
  assumes "findById apiId w = Some api" and "isActive api"
    and "http io (openApiUrl api) = Inr newSpec"
    and "detectChanges io (latestSpec api) newSpec apiId = Inr cr"
    and "det_hasChanges cr"
    and "rejects io MarkChecking = None"
    and "rejects io MarkHealthy = None"
    and "rejects io StoreNewSpec = None"
  shows "case checkApiForChanges io apiId w of (r, w') \<Rightarrow>
     r = Inr \<lparr>hasChanges = True, changes = Some (det_changes cr),
              res_newVersion = info_version newSpec\<rparr> \<and>
     (\<exists>a. findById apiId w' = Some a \<and> latestSpec a = newSpec \<and>
          version a = (if truthy (info_version newSpec) then the (info_version newSpec)
                       else version api) \<and>
          changeCount a = changeCount api + 1 \<and>
          healthStatus a = Healthy \<and> lastError a = None \<and> lastChecked a = Some (now io)) \<and>
     snapshots w' = snapshots w @
       (if rejects io InsertSnapshot = None
        then [\<lparr>snap_apiId = apiId,
               snap_version = or_else (info_version newSpec) ''unknown'',
               snap_spec = newSpec, detectedAt = now io,
               endpointCount = length (path_keys newSpec),
               schemaCount = length (schema_keys newSpec),
               specSize = spec_size newSpec\<rparr>]
        else []) \<and>
     changelogs w' = changelogs w"
proof -
  have v: "or_else (info_version newSpec) (version api) =
      (if truthy (info_version newSpec) then the (info_version newSpec) else version api)"
    by (simp add: or_else_def truthy_def split: option.splits)
  from assms(1) have f: "find (\<lambda>a. api_id a = apiId) (apis w) = Some api"
    by (simp add: findById_def)
  show ?thesis
    unfolding check_with_changes [OF assms]
    by (simp add: findById_def find_by_id_update_first f v createSnapshot_def
        split: option.splits)
qed

text \<open>
  The scenario of section 8: registered with version \<^verbatim>\<open>1.0.0\<close> and no paths, the
  check fetches version \<^verbatim>\<open>1.0.0\<close> with the path \<^verbatim>\<open>/users\<close>.
\<close>

theorem check_with_changes_effect_witness:
  "findById ''a1'' world1 = Some petstore \<and> isActive petstore \<and>
   http env1 (openApiUrl petstore) = Inr spec_users \<and>
   detectChanges env1 (latestSpec petstore) spec_users ''a1'' = Inr users_added \<and>
   det_hasChanges users_added \<and>
   rejects env1 MarkChecking = None \<and> rejects env1 MarkHealthy = None \<and>
   rejects env1 StoreNewSpec = None \<and>
   (case checkApiForChanges env1 ''a1'' world1 of (r, w') \<Rightarrow>
      r = Inr \<lparr>hasChanges = True, changes = Some (det_changes users_added),
               res_newVersion = Some ''1.0.0''\<rparr> \<and>
      (\<exists>a. findById ''a1'' w' = Some a \<and> latestSpec a = spec_users \<and>
           version a = ''1.0.0'' \<and> changeCount a = 1 \<and> healthStatus a = Healthy) \<and>
      length (snapshots w') = length (snapshots world1) + 1 \<and>
      changelogs w' = [])"
proof -
  have h1: "findById ''a1'' world1 = Some petstore"
    by (simp add: findById_def world1_def petstore_def)
  have h2: "isActive petstore"
    by (simp add: petstore_def)
  have h3: "http env1 (openApiUrl petstore) = Inr spec_users"
    by (simp add: env1_def)
  have h4: "detectChanges env1 (latestSpec petstore) spec_users ''a1'' = Inr users_added"
    by (simp add: env1_def)
  have h5: "det_hasChanges users_added"
    by (simp add: users_added_def)
  have h6: "rejects env1 MarkChecking = None" "rejects env1 MarkHealthy = None"
    "rejects env1 StoreNewSpec = None" "rejects env1 InsertSnapshot = None"
    by (simp_all add: env1_def)
  have c: "changeCount petstore = 0" "changelogs world1 = []"
    "info_version spec_users = Some ''1.0.0''"
    by (simp_all add: petstore_def world1_def spec_users_def)
  from check_with_changes_effect [OF h1 h2 h3 h4 h5 h6(1-3)]
  show ?thesis
    using h1 h2 h3 h4 h5 h6 c by (auto simp add: truthy_def)
qed

text \<open>
  Against C1 as stated: in the scenario of section 8 the check reports changes and
  appends a Snapshot, and the changelog does not grow by one entry; and when the store
  rejects the snapshot insert, the check still reports changes and no Snapshot is added.
\<close>

theorem check_with_changes_counterexample:
  "(case checkApiForChanges env1 ''a1'' world1 of (r, w') \<Rightarrow>
      r = Inr \<lparr>hasChanges = True, changes = Some (det_changes users_added),
               res_newVersion = Some ''1.0.0''\<rparr> \<and>
      length (snapshots w') = length (snapshots world1) + 1 \<and>
      length (changelogs w') \<noteq> length (changelogs world1) + 1) \<and>
   (case checkApiForChanges
           (env1\<lparr>rejects := (\<lambda>site. if site = InsertSnapshot then Some store_error else None)\<rparr>)
           ''a1'' world1 of (r, w') \<Rightarrow>
      r = Inr \<lparr>hasChanges = True, changes = Some (det_changes users_added),
               res_newVersion = Some ''1.0.0''\<rparr> \<and>
      length (snapshots w') \<noteq> length (snapshots world1) + 1)"
  by (simp add: checkApiForChanges_def findById_def findByIdAndUpdate_def createSnapshot_def
      world1_def petstore_def env1_def users_added_def spec_users_def)

subsection \<open>Checks whose fetch fails\<close>

lemma check_result_of_target:
  "findById j w = findById j w' \<Longrightarrow>
     fst (checkApiForChanges io j w) = fst (checkApiForChanges io j w')"
  by (simp add: checkApiForChanges_def check_catch_def findByIdAndUpdate_def Let_def
      split: option.splits sum.splits)

lemma check_fetch_fails_unrecorded:
  assumes "findById apiId w = Some api" and "isActive api"
    and "http io (openApiUrl api) = Inl e"
    and "rejects io MarkChecking = None"
    and "rejects io MarkError = Some e'"
  shows "checkApiForChanges io apiId w =
    (Inl e',
     w\<lparr>fetchLog := fetchLog w @ [get_request (openApiUrl api)],
       apis := update_first (\<lambda>a. api_id a = apiId)
              (\<lambda>a. a\<lparr>healthStatus := Checking, lastHealthCheck := Some (now io)\<rparr>)
              (apis w)\<rparr>)"
  using assms
  by (simp add: checkApiForChanges_def check_catch_def findByIdAndUpdate_accepted
      findByIdAndUpdate_rejected)

text \<open>
  Claim C2 (a check whose fetch fails), as amended. The target is active, the store has
  accepted marking it \<^verbatim>\<open>checking\<close>, and the request for its URL fails (network
  error, timeout or HTTP error: \<^verbatim>\<open>axios.get\<close> rejects). Then the request was sent
  once, \<^verbatim>\<open>lastChecked\<close> is what it was, no Snapshot and no ChangelogEntry is written,
  every other target's document is untouched, and a check of any other target returns what
  it would have returned before. If the store accepts the write of the catch block, the
  health status is \<^verbatim>\<open>error\<close>, \<^verbatim>\<open>lastError\<close> is the message of the failure, and
  the check returns \<^verbatim>\<open>{ hasChanges: false }\<close> without throwing; this is the very
  value that a check of the same target returns when it finds no changes, not a result
  that marks a failure. If the store rejects that write, the check throws the store's
  error, the health status stays \<^verbatim>\<open>checking\<close> and \<^verbatim>\<open>lastError\<close> is what it was.
\<close>

theorem check_fetch_failure:
  assumes "findById apiId w = Some api" and "isActive api"
    and "http io (openApiUrl api) = Inl e"
    and "rejects io MarkChecking = None"
  shows "case checkApiForChanges io apiId w of (r, w') \<Rightarrow>
     fetchLog w' = fetchLog w @ [get_request (openApiUrl api)] \<and>
     snapshots w' = snapshots w \<and> changelogs w' = changelogs w \<and>
     (\<exists>a. findById apiId w' = Some a \<and> lastChecked a = lastChecked api \<and>
        (rejects io MarkError = None \<longrightarrow>
           r = Inr no_changes \<and> healthStatus a = Error \<and>
           lastError a = Some (err_message e)) \<and>
        (\<forall>e'. rejects io MarkError = Some e' \<longrightarrow>
           r = Inl e' \<and> healthStatus a = Checking \<and> lastError a = lastError api)) \<and>
     (\<forall>j. j \<noteq> apiId \<longrightarrow>
        findById j w' = findById j w \<and>
        (\<forall>io'. fst (checkApiForChanges io' j w') = fst (checkApiForChanges io' j w))) \<and>
     (\<forall>io2 newSpec cr.
        http io2 (openApiUrl api) = Inr newSpec \<and>
        detectChanges io2 (latestSpec api) newSpec apiId = Inr cr \<and> \<not> det_hasChanges cr \<and>
        rejects io2 = (\<lambda>site. None) \<longrightarrow>
        fst (checkApiForChanges io2 apiId w) = Inr no_changes)"
proof -
  from assms(1) have f: "find (\<lambda>a. api_id a = apiId) (apis w) = Some api"
    by (simp add: findById_def)
  obtain r w' where c: "checkApiForChanges io apiId w = (r, w')"
    by (cases "checkApiForChanges io apiId w")
  have same: "fst (checkApiForChanges io2 apiId w) = Inr no_changes"
    if "http io2 (openApiUrl api) = Inr newSpec \<and>
        detectChanges io2 (latestSpec api) newSpec apiId = Inr cr \<and> \<not> det_hasChanges cr \<and>
        rejects io2 = (\<lambda>site. None)" for io2 newSpec cr
  proof -
    from that have "checkApiForChanges io2 apiId w =
      (Inr no_changes,
       w\<lparr>fetchLog := fetchLog w @ [get_request (openApiUrl api)],
         apis := update_first (\<lambda>a. api_id a = apiId)
              (\<lambda>a. a\<lparr>healthStatus := Healthy, lastHealthCheck := Some (now io2),
                      lastError := None, lastChecked := Some (now io2)\<rparr>) (apis w)\<rparr>)"
      by (intro check_without_changes [OF assms(1,2), where cr = cr and newSpec = newSpec])
        simp_all
    then show ?thesis by simp
  qed
  have main: "fetchLog w' = fetchLog w @ [get_request (openApiUrl api)] \<and>
     snapshots w' = snapshots w \<and> changelogs w' = changelogs w \<and>
     (\<exists>a. findById apiId w' = Some a \<and> lastChecked a = lastChecked api \<and>
        (rejects io MarkError = None \<longrightarrow>
           r = Inr no_changes \<and> healthStatus a = Error \<and>
           lastError a = Some (err_message e)) \<and>
        (\<forall>e'. rejects io MarkError = Some e' \<longrightarrow>
           r = Inl e' \<and> healthStatus a = Checking \<and> lastError a = lastError api)) \<and>
     (\<forall>j. j \<noteq> apiId \<longrightarrow> findById j w' = findById j w)"
  proof (cases "rejects io MarkError")
    case None
    from check_fetch_fails [OF assms None] c show ?thesis
      using None by (auto simp add: findById_def find_by_id_update_first f)
  next
    case (Some e')
    from check_fetch_fails_unrecorded [OF assms Some] c show ?thesis
      using Some by (auto simp add: findById_def find_by_id_update_first f)
  qed
  then have other: "findById j w' = findById j w" if "j \<noteq> apiId" for j
    using that by blast
  have "fst (checkApiForChanges io' j w') = fst (checkApiForChanges io' j w)"
    if "j \<noteq> apiId" for j io'
    using other [OF that] by (rule check_result_of_target)
  with main same show ?thesis
    unfolding c by auto
qed

text \<open>The scenario of section 8: the fetch for the target times out.\<close>

theorem check_fetch_failure_witness:
  "findById ''a1'' world1 = Some petstore \<and> isActive petstore \<and>
   http (env1\<lparr>http := (\<lambda>url. Inl timeout_error)\<rparr>) (openApiUrl petstore) = Inl timeout_error \<and>
   rejects (env1\<lparr>http := (\<lambda>url. Inl timeout_error)\<rparr>) MarkChecking = None \<and>
   (case checkApiForChanges (env1\<lparr>http := (\<lambda>url. Inl timeout_error)\<rparr>) ''a1'' world1 of
      (r, w') \<Rightarrow>
        r = Inr no_changes \<and>
        (\<exists>a. findById ''a1'' w' = Some a \<and> healthStatus a = Error \<and>
             lastError a = Some ''timeout of 10000ms exceeded'' \<and> lastChecked a = Some 0) \<and>
        snapshots w' = [baseline] \<and> changelogs w' = [])"
proof -
  let ?io = "env1\<lparr>http := (\<lambda>url. Inl timeout_error)\<rparr>"
  have h1: "findById ''a1'' world1 = Some petstore"
    by (simp add: findById_def world1_def petstore_def)
  have h2: "isActive petstore"
    by (simp add: petstore_def)
  have h3: "http ?io (openApiUrl petstore) = Inl timeout_error"
    by simp
  have h4: "rejects ?io MarkChecking = None" "rejects ?io MarkError = None"
    by (simp_all add: env1_def)
  have c: "lastChecked petstore = Some 0" "snapshots world1 = [baseline]"
    "changelogs world1 = []" "err_message timeout_error = ''timeout of 10000ms exceeded''"
    by (simp_all add: petstore_def world1_def timeout_error_def)
  from check_fetch_failure [OF h1 h2 h3 h4(1)]
  show ?thesis
    using h1 h2 h3 h4 c by (auto simp add: split_def)
qed

text \<open>
  Against C2 as stated: the fetch times out and the store rejects the write of the catch
  block; the check throws, and the health status is \<^verbatim>\<open>checking\<close>, not
  \<^verbatim>\<open>error\<close>, with no message recorded.
\<close>

theorem check_fetch_failure_counterexample:
  "http (env1\<lparr>http := (\<lambda>url. Inl timeout_error),
              rejects := (\<lambda>site. if site = MarkError then Some store_error else None)\<rparr>)
     (openApiUrl petstore) = Inl timeout_error \<and>
   (case checkApiForChanges
           (env1\<lparr>http := (\<lambda>url. Inl timeout_error),
                 rejects := (\<lambda>site. if site = MarkError then Some store_error else None)\<rparr>)
           ''a1'' world1 of
      (r, w') \<Rightarrow>
        r = Inl store_error \<and>
        map_option healthStatus (findById ''a1'' w') = Some Checking \<and>
        map_option lastError (findById ''a1'' w') = Some None)"
  by (simp add: checkApiForChanges_def check_catch_def findById_def findByIdAndUpdate_def
      world1_def petstore_def env1_def)

subsection \<open>Checks of a target that is being checked\<close>

lemma check_ignores_healthStatus:
  assumes "findById apiId w = Some api"
  shows "fst (checkApiForChanges io apiId
            (w\<lparr>apis := update_first (\<lambda>a. api_id a = apiId) (\<lambda>a. a\<lparr>healthStatus := h\<rparr>) (apis w)\<rparr>))
         = fst (checkApiForChanges io apiId w) \<and>
         fetchLog (snd (checkApiForChanges io apiId
            (w\<lparr>apis := update_first (\<lambda>a. api_id a = apiId) (\<lambda>a. a\<lparr>healthStatus := h\<rparr>) (apis w)\<rparr>)))
         = fetchLog (snd (checkApiForChanges io apiId w))"
proof -
  from assms have f: "find (\<lambda>a. api_id a = apiId) (apis w) = Some api"
    by (simp add: findById_def)
  show ?thesis
    by (simp add: checkApiForChanges_def check_catch_def findByIdAndUpdate_def Let_def
        createSnapshot_def findById_def find_by_id_update_first f
        split: option.splits sum.splits)
qed

lemma check_marking_rejected:
  assumes "findById apiId w = Some api" and "isActive api"
    and "rejects io MarkChecking = Some e"
  shows "checkApiForChanges io apiId w = check_catch io apiId e w"
  using assms by (simp add: checkApiForChanges_def findByIdAndUpdate_rejected)

lemma check_sends_request:
  assumes "findById apiId w = Some api" and "isActive api"
    and "rejects io MarkChecking = None"
  shows "fetchLog (snd (checkApiForChanges io apiId w)) =
           fetchLog w @ [get_request (openApiUrl api)]"
  using assms
  by (simp add: checkApiForChanges_def check_catch_def findByIdAndUpdate_def
      createSnapshot_def Let_def split: option.splits sum.splits)

text \<open>
  Claim C3 (one check in flight), as amended. A check of a target that does not exist or
  is inactive is skipped: it returns \<^verbatim>\<open>{ hasChanges: false }\<close> and leaves the state as
  it is, with no fetch and no write. For an existing active target the health status is
  not consulted: the result of the check and the requests it sends are the same whatever
  the status is, \<^verbatim>\<open>checking\<close> included. If the store accepts the write that marks the
  target \<^verbatim>\<open>checking\<close>, the check sends the request. If the store rejects that write,
  no request is sent and no Snapshot is written, and the catch block runs: when the store
  accepts its write, the health status is \<^verbatim>\<open>error\<close> with the message recorded and
  \<^verbatim>\<open>{ hasChanges: false }\<close> is returned; when the store rejects it too, the check
  throws and nothing is written. When the fetch and the detector succeed with changes and
  the store accepts every write, the change count goes up by one and one more Snapshot
  is stored.
\<close>

theorem check_not_skipped_when_checking:
  "(findById apiId w = None \<or> (\<exists>api. findById apiId w = Some api \<and> \<not> isActive api) \<longrightarrow>
      checkApiForChanges io apiId w = (Inr no_changes, w)) \<and>
   (\<forall>api. findById apiId w = Some api \<and> isActive api \<longrightarrow>
      (\<forall>h. fst (checkApiForChanges io apiId
               (w\<lparr>apis := update_first (\<lambda>a. api_id a = apiId)
                             (\<lambda>a. a\<lparr>healthStatus := h\<rparr>) (apis w)\<rparr>))
             = fst (checkApiForChanges io apiId w) \<and>
           fetchLog (snd (checkApiForChanges io apiId
               (w\<lparr>apis := update_first (\<lambda>a. api_id a = apiId)
                             (\<lambda>a. a\<lparr>healthStatus := h\<rparr>) (apis w)\<rparr>)))
             = fetchLog (snd (checkApiForChanges io apiId w))) \<and>
      (rejects io MarkChecking = None \<longrightarrow>
         fetchLog (snd (checkApiForChanges io apiId w)) =
           fetchLog w @ [get_request (openApiUrl api)]) \<and>
      (\<forall>e. rejects io MarkChecking = Some e \<longrightarrow>
         fetchLog (snd (checkApiForChanges io apiId w)) = fetchLog w \<and>
         snapshots (snd (checkApiForChanges io apiId w)) = snapshots w \<and>
         (rejects io MarkError = None \<longrightarrow>
            fst (checkApiForChanges io apiId w) = Inr no_changes \<and>
            map_option healthStatus (findById apiId (snd (checkApiForChanges io apiId w)))
              = Some Error \<and>
            map_option lastError (findById apiId (snd (checkApiForChanges io apiId w)))
              = Some (Some (err_message e))) \<and>
         (\<forall>e'. rejects io MarkError = Some e' \<longrightarrow>
            checkApiForChanges io apiId w = (Inl e', w)))) \<and>
   (\<forall>api newSpec cr. findById apiId w = Some api \<and> isActive api \<and>
      http io (openApiUrl api) = Inr newSpec \<and>
      detectChanges io (latestSpec api) newSpec apiId = Inr cr \<and> det_hasChanges cr \<and>
      rejects io = (\<lambda>site. None) \<longrightarrow>
      length (snapshots (snd (checkApiForChanges io apiId w))) = length (snapshots w) + 1 \<and>
      map_option changeCount (findById apiId (snd (checkApiForChanges io apiId w))) =
        Some (changeCount api + 1))"
proof (intro conjI allI impI)
  assume "findById apiId w = None \<or> (\<exists>api. findById apiId w = Some api \<and> \<not> isActive api)"
  then show "checkApiForChanges io apiId w = (Inr no_changes, w)"
    by (auto simp add: check_skipped)
next
  fix api h
  assume "findById apiId w = Some api \<and> isActive api"
  then have f: "findById apiId w = Some api" by simp
  from check_ignores_healthStatus [OF f, of io h]
  show "fst (checkApiForChanges io apiId
               (w\<lparr>apis := update_first (\<lambda>a. api_id a = apiId)
                             (\<lambda>a. a\<lparr>healthStatus := h\<rparr>) (apis w)\<rparr>))
             = fst (checkApiForChanges io apiId w)"
    and "fetchLog (snd (checkApiForChanges io apiId
               (w\<lparr>apis := update_first (\<lambda>a. api_id a = apiId)
                             (\<lambda>a. a\<lparr>healthStatus := h\<rparr>) (apis w)\<rparr>)))
             = fetchLog (snd (checkApiForChanges io apiId w))"
    by simp_all
next
  fix api
  assume "findById apiId w = Some api \<and> isActive api" and "rejects io MarkChecking = None"
  then show "fetchLog (snd (checkApiForChanges io apiId w)) =
           fetchLog w @ [get_request (openApiUrl api)]"
    by (intro check_sends_request) simp_all
next
  fix api e
  assume a: "findById apiId w = Some api \<and> isActive api" and m: "rejects io MarkChecking = Some e"
  then have c: "checkApiForChanges io apiId w = check_catch io apiId e w"
    by (intro check_marking_rejected [where api = api]) simp_all
  from a have f: "find (\<lambda>a. api_id a = apiId) (apis w) = Some api"
    by (simp add: findById_def)
  show "fetchLog (snd (checkApiForChanges io apiId w)) = fetchLog w"
    and "snapshots (snd (checkApiForChanges io apiId w)) = snapshots w"
    unfolding c by (simp_all add: check_catch_def findByIdAndUpdate_def split: option.splits)
  {
    assume n: "rejects io MarkError = None"
    show "fst (checkApiForChanges io apiId w) = Inr no_changes"
      and "map_option healthStatus (findById apiId (snd (checkApiForChanges io apiId w)))
              = Some Error"
      and "map_option lastError (findById apiId (snd (checkApiForChanges io apiId w)))
              = Some (Some (err_message e))"
      unfolding c using n
      by (simp_all add: check_catch_def findByIdAndUpdate_def findById_def
          find_by_id_update_first f)
  }
  {
    fix e'
    assume "rejects io MarkError = Some e'"
    then show "checkApiForChanges io apiId w = (Inl e', w)"
      unfolding c by (simp add: check_catch_def findByIdAndUpdate_def)
  }
next
  fix api newSpec cr
  assume a: "findById apiId w = Some api \<and> isActive api \<and>
      http io (openApiUrl api) = Inr newSpec \<and>
      detectChanges io (latestSpec api) newSpec apiId = Inr cr \<and> det_hasChanges cr \<and>
      rejects io = (\<lambda>site. None)"
  then have f: "find (\<lambda>a. api_id a = apiId) (apis w) = Some api"
    by (simp add: findById_def)
  from a have c: "checkApiForChanges io apiId w =
    (Inr \<lparr>hasChanges = True, changes = Some (det_changes cr),
          res_newVersion = info_version newSpec\<rparr>,
     createSnapshot io apiId newSpec
       (w\<lparr>fetchLog := fetchLog w @ [get_request (openApiUrl api)],
          apis := update_first (\<lambda>a. api_id a = apiId)
              (\<lambda>a. a\<lparr>healthStatus := Healthy, lastChecked := Some (now io),
                      lastHealthCheck := Some (now io), lastError := None,
                      latestSpec := newSpec,
                      version := or_else (info_version newSpec) (version api),
                      changeCount := changeCount api + 1\<rparr>) (apis w)\<rparr>))"
    by (intro check_with_changes) simp_all
  from a show "length (snapshots (snd (checkApiForChanges io apiId w))) = length (snapshots w) + 1"
    unfolding c by (simp add: createSnapshot_def)
  from a show "map_option changeCount (findById apiId (snd (checkApiForChanges io apiId w))) =
        Some (changeCount api + 1)"
    unfolding c by (simp add: findById_def find_by_id_update_first f createSnapshot_def)
qed

text \<open>A target left in state \<^verbatim>\<open>checking\<close> is checked again; an unknown one is skipped.\<close>

theorem check_not_skipped_when_checking_witness:
  "findById ''a1'' (world1\<lparr>apis := [petstore\<lparr>healthStatus := Checking\<rparr>]\<rparr>)
     = Some (petstore\<lparr>healthStatus := Checking\<rparr>) \<and>
   isActive (petstore\<lparr>healthStatus := Checking\<rparr>) \<and>
   healthStatus (petstore\<lparr>healthStatus := Checking\<rparr>) = Checking \<and>
   rejects env1 = (\<lambda>site. None) \<and>
   fetchLog (snd (checkApiForChanges env1 ''a1''
       (world1\<lparr>apis := [petstore\<lparr>healthStatus := Checking\<rparr>]\<rparr>)))
     = [get_request ''https://petstore.test/openapi.json''] \<and>
   length (snapshots (snd (checkApiForChanges env1 ''a1''
       (world1\<lparr>apis := [petstore\<lparr>healthStatus := Checking\<rparr>]\<rparr>)))) = 2 \<and>
   findById ''zz'' world1 = None \<and>
   checkApiForChanges env1 ''zz'' world1 = (Inr no_changes, world1)"
proof -
  let ?w = "world1\<lparr>apis := [petstore\<lparr>healthStatus := Checking\<rparr>]\<rparr>"
  let ?api = "petstore\<lparr>healthStatus := Checking\<rparr>"
  have h1: "findById ''a1'' ?w = Some ?api"
    by (simp add: findById_def petstore_def)
  have h2: "isActive ?api" "healthStatus ?api = Checking"
    by (simp_all add: petstore_def)
  have h3: "rejects env1 = (\<lambda>site. None)" "rejects env1 MarkChecking = None"
    by (simp_all add: env1_def)
  have h4: "http env1 (openApiUrl ?api) = Inr spec_users"
    "detectChanges env1 (latestSpec ?api) spec_users ''a1'' = Inr users_added"
    "det_hasChanges users_added"
    by (simp_all add: env1_def users_added_def)
  have h5: "findById ''zz'' world1 = None"
    by (simp add: findById_def world1_def petstore_def)
  have c: "fetchLog ?w = []" "snapshots ?w = [baseline]"
    "openApiUrl ?api = ''https://petstore.test/openapi.json''"
    by (simp_all add: world1_def petstore_def)
  note t = check_not_skipped_when_checking [where apiId = "''a1''" and w = ?w and io = env1]
  note z = check_not_skipped_when_checking [where apiId = "''zz''" and w = world1 and io = env1]
  from t h1 h2 h3 have "fetchLog (snd (checkApiForChanges env1 ''a1'' ?w)) =
      fetchLog ?w @ [get_request (openApiUrl ?api)]"
    by blast
  moreover from t h1 h2 h3 h4
  have "length (snapshots (snd (checkApiForChanges env1 ''a1'' ?w))) = length (snapshots ?w) + 1"
    by blast
  moreover from z h5 have "checkApiForChanges env1 ''zz'' world1 = (Inr no_changes, world1)"
    by blast
  ultimately show ?thesis
    using h1 h2 h3 h5 c by simp
qed

text \<open>
  Against C3 as stated: the target's status is \<^verbatim>\<open>checking\<close> when the check is
  triggered, and the check fetches the document, writes a Snapshot and raises the change
  count.
\<close>

theorem check_not_skipped_counterexample:
  "healthStatus (petstore\<lparr>healthStatus := Checking\<rparr>) = Checking \<and>
   findById ''a1'' (world1\<lparr>apis := [petstore\<lparr>healthStatus := Checking\<rparr>]\<rparr>)
     = Some (petstore\<lparr>healthStatus := Checking\<rparr>) \<and>
   (case checkApiForChanges env1 ''a1'' (world1\<lparr>apis := [petstore\<lparr>healthStatus := Checking\<rparr>]\<rparr>) of
      (r, w') \<Rightarrow>
        fetchLog w' = [get_request ''https://petstore.test/openapi.json''] \<and>
        snapshots w' \<noteq> snapshots world1 \<and>
        map_option changeCount (findById ''a1'' w') = Some 1)"
  by (simp add: checkApiForChanges_def findById_def findByIdAndUpdate_def createSnapshot_def
      world1_def petstore_def env1_def users_added_def spec_users_def)

subsection \<open>Checks during which the store rejects a write\<close>

lemma check_update_failure_effect:
  assumes "findById apiId w = Some api" and "isActive api"
    and "http io (openApiUrl api) = Inr newSpec"
    and "detectChanges io (latestSpec api) newSpec apiId = Inr cr"
    and "rejects io MarkChecking = None"
    and "rejects io MarkHealthy = Some e \<or>
         rejects io MarkHealthy = None \<and> det_hasChanges cr \<and> rejects io StoreNewSpec = Some e \<or>
         rejects io MarkHealthy = None \<and> \<not> det_hasChanges cr \<and>
           rejects io TouchLastChecked = Some e"
  shows "case checkApiForChanges io apiId w of (r, w') \<Rightarrow>
     snapshots w' = snapshots w \<and>
     (rejects io MarkError = None \<longrightarrow>
        r = Inr no_changes \<and>
        (\<exists>a. findById apiId w' = Some a \<and> healthStatus a = Error \<and>
             lastError a = Some (err_message e))) \<and>
     (\<forall>e'. rejects io MarkError = Some e' \<longrightarrow> r = Inl e')"
proof (cases "rejects io MarkError")
  case None
  from assms(1) have f: "find (\<lambda>a. api_id a = apiId) (apis w) = Some api"
    by (simp add: findById_def)
  from check_update_fails [OF assms(1-5) None assms(6)]
  obtain lc where c: "checkApiForChanges io apiId w =
    (Inr no_changes,
     w\<lparr>fetchLog := fetchLog w @ [get_request (openApiUrl api)],
       apis := update_first (\<lambda>a. api_id a = apiId)
              (\<lambda>a. a\<lparr>lastChecked := lc a, healthStatus := Error,
                      lastHealthCheck := Some (now io),
                      lastError := Some (err_message e)\<rparr>) (apis w)\<rparr>)"
    by blast
  show ?thesis
    unfolding c using None by (simp add: findById_def find_by_id_update_first f)
next
  case (Some e')
  with assms show ?thesis
    by (auto simp add: checkApiForChanges_def check_catch_def findByIdAndUpdate_def)
qed

lemma check_snapshot_failure_effect:
  assumes "findById apiId w = Some api" and "isActive api"
    and "http io (openApiUrl api) = Inr newSpec"
    and "detectChanges io (latestSpec api) newSpec apiId = Inr cr"
    and "det_hasChanges cr"
    and "rejects io MarkChecking = None"
    and "rejects io MarkHealthy = None"
    and "rejects io StoreNewSpec = None"
    and "rejects io InsertSnapshot = Some e"
  shows "case checkApiForChanges io apiId w of (r, w') \<Rightarrow>
     (\<exists>res. r = Inr res \<and> hasChanges res) \<and>
     (\<exists>a. findById apiId w' = Some a \<and> healthStatus a = Healthy \<and> lastError a = None) \<and>
     snapshots w' = snapshots w"
proof -
  from assms(1) have f: "find (\<lambda>a. api_id a = apiId) (apis w) = Some api"
    by (simp add: findById_def)
  show ?thesis
    unfolding check_with_changes [OF assms(1-8)]
    using assms(9) by (simp add: findById_def find_by_id_update_first f createSnapshot_def)
qed

text \<open>
  Claim C7 (persistence failures during a check), as amended. After a successful fetch
  and diff: when the store rejects a target update of steps 5 and 6 (the health update,
  the update of specification and version, the update of \<^verbatim>\<open>lastChecked\<close>), the
  catch block records the failure, and if the store accepts that write the target's
  health status ends as \<^verbatim>\<open>error\<close> with the message recorded and the check returns
  normally; if the store rejects that write as well, the check rejects with the second
  error. When only the snapshot insert is rejected, \<^verbatim>\<open>createSnapshot\<close> swallows the
  error: the check reports the changes, the health status ends as \<^verbatim>\<open>healthy\<close> with
  no error recorded, and no Snapshot is stored.
\<close>

theorem check_persistence_failure:
  assumes "findById apiId w = Some api" and "isActive api"
    and "http io (openApiUrl api) = Inr newSpec"
    and "detectChanges io (latestSpec api) newSpec apiId = Inr cr"
    and "rejects io MarkChecking = None"
  shows "case checkApiForChanges io apiId w of (r, w') \<Rightarrow>
     ((rejects io MarkHealthy = Some e \<or>
       rejects io MarkHealthy = None \<and> det_hasChanges cr \<and> rejects io StoreNewSpec = Some e \<or>
       rejects io MarkHealthy = None \<and> \<not> det_hasChanges cr \<and>
         rejects io TouchLastChecked = Some e) \<longrightarrow>
        snapshots w' = snapshots w \<and>
        (rejects io MarkError = None \<longrightarrow>
           r = Inr no_changes \<and>
           (\<exists>a. findById apiId w' = Some a \<and> healthStatus a = Error \<and>
                lastError a = Some (err_message e))) \<and>
        (\<forall>e'. rejects io MarkError = Some e' \<longrightarrow> r = Inl e')) \<and>
     (rejects io MarkHealthy = None \<and> det_hasChanges cr \<and> rejects io StoreNewSpec = None \<and>
      rejects io InsertSnapshot = Some e \<longrightarrow>
        (\<exists>res. r = Inr res \<and> hasChanges res) \<and>
        (\<exists>a. findById apiId w' = Some a \<and> healthStatus a = Healthy \<and> lastError a = None) \<and>
        snapshots w' = snapshots w)"
proof -
  obtain r w' where c: "checkApiForChanges io apiId w = (r, w')"
    by (cases "checkApiForChanges io apiId w")
  have "snapshots w' = snapshots w \<and>
        (rejects io MarkError = None \<longrightarrow>
           r = Inr no_changes \<and>
           (\<exists>a. findById apiId w' = Some a \<and> healthStatus a = Error \<and>
                lastError a = Some (err_message e))) \<and>
        (\<forall>e'. rejects io MarkError = Some e' \<longrightarrow> r = Inl e')"
    if "rejects io MarkHealthy = Some e \<or>
       rejects io MarkHealthy = None \<and> det_hasChanges cr \<and> rejects io StoreNewSpec = Some e \<or>
       rejects io MarkHealthy = None \<and> \<not> det_hasChanges cr \<and>
         rejects io TouchLastChecked = Some e"
    using check_update_failure_effect [OF assms that] c by simp
  moreover
  have "(\<exists>res. r = Inr res \<and> hasChanges res) \<and>
        (\<exists>a. findById apiId w' = Some a \<and> healthStatus a = Healthy \<and> lastError a = None) \<and>
        snapshots w' = snapshots w"
    if "rejects io MarkHealthy = None \<and> det_hasChanges cr \<and> rejects io StoreNewSpec = None \<and>
      rejects io InsertSnapshot = Some e"
    using check_snapshot_failure_effect [OF assms(1-4) _ assms(5), of e] that c by simp
  ultimately show ?thesis
    unfolding c by simp
qed

text \<open>The store rejects the update of specification and version.\<close>

theorem check_persistence_failure_witness:
  "findById ''a1'' world1 = Some petstore \<and> isActive petstore \<and>
   (case checkApiForChanges
           (env1\<lparr>rejects := (\<lambda>site. if site = StoreNewSpec then Some store_error else None)\<rparr>)
           ''a1'' world1 of
      (r, w') \<Rightarrow>
        r = Inr no_changes \<and> snapshots w' = [baseline] \<and>
        (\<exists>a. findById ''a1'' w' = Some a \<and> healthStatus a = Error \<and>
             lastError a = Some ''connection to the store lost''))"
proof -
  let ?io = "env1\<lparr>rejects := (\<lambda>site. if site = StoreNewSpec then Some store_error else None)\<rparr>"
  have h1: "findById ''a1'' world1 = Some petstore"
    by (simp add: findById_def world1_def petstore_def)
  have h2: "isActive petstore"
    by (simp add: petstore_def)
  have h3: "http ?io (openApiUrl petstore) = Inr spec_users"
    by (simp add: env1_def)
  have h4: "detectChanges ?io (latestSpec petstore) spec_users ''a1'' = Inr users_added"
    by (simp add: env1_def)
  have h5: "rejects ?io MarkChecking = None" "rejects ?io MarkHealthy = None"
    "rejects ?io StoreNewSpec = Some store_error" "rejects ?io MarkError = None"
    "det_hasChanges users_added"
    by (simp_all add: users_added_def)
  have c: "snapshots world1 = [baseline]"
    "err_message store_error = ''connection to the store lost''"
    by (simp_all add: world1_def store_error_def)
  from check_persistence_failure [OF h1 h2 h3 h4 h5(1), of store_error]
  show ?thesis
    using h1 h2 h5 c by (auto simp add: split_def)
qed

text \<open>
  Against C7 as stated: the snapshot write fails, and the target's health status ends as
  \<^verbatim>\<open>healthy\<close> with no error message recorded.
\<close>

theorem check_persistence_failure_counterexample:
  "rejects (env1\<lparr>rejects := (\<lambda>site. if site = InsertSnapshot then Some store_error else None)\<rparr>)
     InsertSnapshot = Some store_error \<and>
   (case checkApiForChanges
           (env1\<lparr>rejects := (\<lambda>site. if site = InsertSnapshot then Some store_error else None)\<rparr>)
           ''a1'' world1 of
      (r, w') \<Rightarrow>
        r = Inr \<lparr>hasChanges = True, changes = Some (det_changes users_added),
                 res_newVersion = Some ''1.0.0''\<rparr> \<and>
        snapshots w' = snapshots world1 \<and>
        map_option healthStatus (findById ''a1'' w') = Some Healthy \<and>
        map_option lastError (findById ''a1'' w') = Some None)"
  by (simp add: checkApiForChanges_def findById_def findByIdAndUpdate_def createSnapshot_def
      world1_def petstore_def env1_def users_added_def spec_users_def)

subsection \<open>Checks that fetch a document without a version\<close>

text \<open>
  Claim C8 (fetched document without \<^verbatim>\<open>info.version\<close>), as amended. Such a document
  is processed like any other, not as a failure: when the store accepts the target
  updates, the check returns the detector's verdict, and the target's health status ends
  as \<^verbatim>\<open>healthy\<close> with the error cleared and \<^verbatim>\<open>lastChecked\<close> set. When the
  detector reports changes, the stored specification is replaced by the fetched document
  and the change count goes up by one; the stored version alone is kept, and the
  Snapshot written is labelled \<^verbatim>\<open>unknown\<close>.
\<close>

theorem check_unversioned_document:
  assumes "findById apiId w = Some api" and "isActive api"
    and "http io (openApiUrl api) = Inr newSpec"
    and "\<not> truthy (info_version newSpec)"
    and "detectChanges io (latestSpec api) newSpec apiId = Inr cr"
    and "rejects io MarkChecking = None"
    and "rejects io MarkHealthy = None"
    and "rejects io (if det_hasChanges cr then StoreNewSpec else TouchLastChecked) = None"
  shows "case checkApiForChanges io apiId w of (r, w') \<Rightarrow>
     (\<exists>res. r = Inr res \<and> hasChanges res = det_hasChanges cr) \<and>
     (\<exists>a. findById apiId w' = Some a \<and>
          healthStatus a = Healthy \<and> lastError a = None \<and> lastChecked a = Some (now io) \<and>
          version a = version api \<and>
          latestSpec a = (if det_hasChanges cr then newSpec else latestSpec api) \<and>
          changeCount a = (if det_hasChanges cr then changeCount api + 1 else changeCount api)) \<and>
     (det_hasChanges cr \<and> rejects io InsertSnapshot = None \<longrightarrow>
        (\<exists>s. snapshots w' = snapshots w @ [s] \<and> snap_version s = ''unknown'' \<and>
             snap_spec s = newSpec))"
proof (cases "det_hasChanges cr")
  case True
  from assms(1) have f: "find (\<lambda>a. api_id a = apiId) (apis w) = Some api"
    by (simp add: findById_def)
  from assms(4) have v: "or_else (info_version newSpec) d = d" for d
    by (simp add: or_else_def truthy_def split: option.splits)
  from True assms(8) have s: "rejects io StoreNewSpec = None"
    by simp
  show ?thesis
    unfolding check_with_changes [OF assms(1-3) assms(5) True assms(6,7) s]
    using True
    by (simp add: findById_def find_by_id_update_first f v createSnapshot_def
        split: option.splits)
next
  case False
  from assms(1) have f: "find (\<lambda>a. api_id a = apiId) (apis w) = Some api"
    by (simp add: findById_def)
  from False assms(8) have s: "rejects io TouchLastChecked = None"
    by simp
  show ?thesis
    unfolding check_without_changes [OF assms(1-3) assms(5) False assms(6,7) s]
    using False by (simp add: findById_def find_by_id_update_first f no_changes_def)
qed

text \<open>The fetch returns a document with the path \<^verbatim>\<open>/users\<close> and no \<^verbatim>\<open>info\<close>.\<close>

theorem check_unversioned_document_witness:
  "findById ''a1'' world1 = Some petstore \<and> isActive petstore \<and>
   \<not> truthy (info_version spec_unversioned) \<and>
   (case checkApiForChanges (env1\<lparr>http := (\<lambda>url. Inr spec_unversioned)\<rparr>) ''a1'' world1 of
      (r, w') \<Rightarrow>
        (\<exists>res. r = Inr res \<and> hasChanges res) \<and>
        (\<exists>a. findById ''a1'' w' = Some a \<and> healthStatus a = Healthy \<and> lastError a = None \<and>
             version a = ''1.0.0'' \<and> latestSpec a = spec_unversioned \<and> changeCount a = 1) \<and>
        (\<exists>s. snapshots w' = [baseline, s] \<and> snap_version s = ''unknown''))"
proof -
  let ?io = "env1\<lparr>http := (\<lambda>url. Inr spec_unversioned)\<rparr>"
  have h1: "findById ''a1'' world1 = Some petstore"
    by (simp add: findById_def world1_def petstore_def)
  have h2: "isActive petstore"
    by (simp add: petstore_def)
  have h3: "http ?io (openApiUrl petstore) = Inr spec_unversioned"
    by simp
  have h4: "\<not> truthy (info_version spec_unversioned)"
    by (simp add: truthy_def spec_unversioned_def)
  have h5: "detectChanges ?io (latestSpec petstore) spec_unversioned ''a1'' = Inr users_added"
    by (simp add: env1_def)
  have h6: "rejects ?io MarkChecking = None" "rejects ?io MarkHealthy = None"
    "rejects ?io (if det_hasChanges users_added then StoreNewSpec else TouchLastChecked) = None"
    "rejects ?io InsertSnapshot = None"
    by (simp_all add: env1_def)
  have c: "det_hasChanges users_added" "version petstore = ''1.0.0''"
    "changeCount petstore = 0" "snapshots world1 = [baseline]"
    by (simp_all add: users_added_def petstore_def world1_def)
  from check_unversioned_document [OF h1 h2 h3 h4 h5 h6(1-3)]
  show ?thesis
    using h1 h2 h4 h6(4) c by (auto simp add: split_def)
qed

text \<open>
  Against C8 as stated: the fetched document has no version, the check reports success
  with changes, and the stored specification is replaced by that document.
\<close>

theorem check_unversioned_document_counterexample:
  "info_version spec_unversioned = None \<and>
   (case checkApiForChanges (env1\<lparr>http := (\<lambda>url. Inr spec_unversioned)\<rparr>) ''a1'' world1 of
      (r, w') \<Rightarrow>
        r = Inr \<lparr>hasChanges = True, changes = Some (det_changes users_added),
                 res_newVersion = None\<rparr> \<and>
        map_option latestSpec (findById ''a1'' w') = Some spec_unversioned \<and>
        map_option latestSpec (findById ''a1'' world1) = Some spec_v1 \<and>
        spec_unversioned \<noteq> spec_v1 \<and>
        map_option healthStatus (findById ''a1'' w') = Some Healthy \<and>
        map_option lastError (findById ''a1'' w') = Some None)"
  by (simp add: checkApiForChanges_def findById_def findByIdAndUpdate_def createSnapshot_def
      world1_def petstore_def env1_def users_added_def spec_unversioned_def spec_v1_def)

subsection \<open>Registration\<close>

text \<open>
  Claim C6 (registration), as amended. Every registration sends exactly one request and
  writes nothing to the changelog. If the fetch fails, if the fetched document has no
  non-empty \<^verbatim>\<open>info.version\<close>, or if the store rejects saving the target,
  registration fails and neither a target nor a Snapshot is created; a missing version
  fails with the message of the invalid-specification error. Otherwise registration
  succeeds: the target is appended with health status \<^verbatim>\<open>healthy\<close>, change count 0
  and the fetched version and document, and the baseline Snapshot is appended when the
  store accepts the snapshot insert and is missing when the store rejects it.
\<close>

theorem registerApi_outcomes:
  "case registerApi io dto uid w of (r, w') \<Rightarrow>
     fetchLog w' = fetchLog w @ [get_request (dto_openApiUrl dto)] \<and>
     changelogs w' = changelogs w \<and>
     ((\<exists>e. http io (dto_openApiUrl dto) = Inl e) \<or>
      (\<exists>data. http io (dto_openApiUrl dto) = Inr data \<and> \<not> truthy (info_version data)) \<or>
      (\<exists>e. rejects io SaveApi = Some e) \<longrightarrow>
        (\<exists>failure. r = Inl failure) \<and> apis w' = apis w \<and> snapshots w' = snapshots w) \<and>
     (\<forall>data. http io (dto_openApiUrl dto) = Inr data \<and> \<not> truthy (info_version data) \<longrightarrow>
        r = Inl (FailedToRegister ''Invalid OpenAPI spec - missing version information'')) \<and>
     (\<forall>data. http io (dto_openApiUrl dto) = Inr data \<and> truthy (info_version data) \<and>
        rejects io SaveApi = None \<longrightarrow>
        (\<exists>a. r = Inr a \<and> apis w' = apis w @ [a] \<and>
           healthStatus a = Healthy \<and> changeCount a = 0 \<and> isActive a \<and> userId a = uid \<and>
           version a = the (info_version data) \<and> latestSpec a = data \<and>
           snapshots w' = snapshots w @
             (if rejects io InsertSnapshot = None
              then [\<lparr>snap_apiId = api_id a, snap_version = the (info_version data),
                     snap_spec = data, detectedAt = now io,
                     endpointCount = length (path_keys data),
                     schemaCount = length (schema_keys data),
                     specSize = spec_size data\<rparr>]
              else [])))"
proof (cases "http io (dto_openApiUrl dto)")
  case (Inl e)
  then show ?thesis
    by (simp add: registerApi_def Let_def)
next
  case (Inr data)
  have v: "or_else (info_version data) d = the (info_version data)"
    if "truthy (info_version data)" for d
    using that by (simp add: or_else_def truthy_def split: option.splits)
  show ?thesis
  proof (cases "truthy (info_version data)")
    case False
    with Inr show ?thesis
      by (simp add: registerApi_def Let_def register_catch_def missing_version_def)
  next
    case True
    show ?thesis
    proof (cases "rejects io SaveApi")
      case None
      with Inr True show ?thesis
        by (simp add: registerApi_def Let_def createSnapshot_def v split: option.splits)
    next
      case (Some e)
      with Inr True show ?thesis
        by (simp add: registerApi_def Let_def)
    qed
  qed
qed

text \<open>A registration that succeeds, and one whose document has no version.\<close>

theorem registerApi_outcomes_witness:
  "http env1 (dto_openApiUrl orders_dto) = Inr spec_users \<and> truthy (info_version spec_users) \<and>
   rejects env1 SaveApi = None \<and>
   (case registerApi env1 orders_dto ''u2'' world1 of (r, w') \<Rightarrow>
      fetchLog w' = [get_request ''https://orders.test/openapi.json''] \<and>
      (\<exists>a. r = Inr a \<and> apis w' = [petstore, a] \<and> healthStatus a = Healthy \<and>
           changeCount a = 0 \<and> version a = ''1.0.0'') \<and>
      length (snapshots w') = 2) \<and>
   (case registerApi (env1\<lparr>http := (\<lambda>url. Inr spec_unversioned)\<rparr>) orders_dto ''u2'' world1 of
      (r, w') \<Rightarrow>
        r = Inl (FailedToRegister ''Invalid OpenAPI spec - missing version information'') \<and>
        apis w' = [petstore] \<and> snapshots w' = [baseline])"
proof -
  let ?bad = "env1\<lparr>http := (\<lambda>url. Inr spec_unversioned)\<rparr>"
  have h: "http env1 (dto_openApiUrl orders_dto) = Inr spec_users"
    "truthy (info_version spec_users)" "rejects env1 SaveApi = None"
    "rejects env1 InsertSnapshot = None"
    by (simp_all add: env1_def truthy_def spec_users_def)
  have b: "http ?bad (dto_openApiUrl orders_dto) = Inr spec_unversioned"
    "\<not> truthy (info_version spec_unversioned)"
    by (simp_all add: truthy_def spec_unversioned_def)
  have c: "fetchLog world1 = []" "apis world1 = [petstore]" "snapshots world1 = [baseline]"
    "dto_openApiUrl orders_dto = ''https://orders.test/openapi.json''"
    "the (info_version spec_users) = ''1.0.0''"
    by (simp_all add: world1_def orders_dto_def spec_users_def)
  from registerApi_outcomes [where io = env1 and dto = orders_dto and uid = "''u2''" and w = world1]
    registerApi_outcomes [where io = ?bad and dto = orders_dto and uid = "''u2''" and w = world1]
  show ?thesis
    using h b c by (auto simp add: split_def)
qed

text \<open>
  Against C6 as stated: the store rejects the snapshot insert, registration succeeds, and
  the registered target has no Snapshot.
\<close>

theorem registerApi_snapshot_counterexample:
  "(case registerApi
           (env1\<lparr>rejects := (\<lambda>site. if site = InsertSnapshot then Some store_error else None)\<rparr>)
           orders_dto ''u2'' world1 of
      (r, w') \<Rightarrow>
        (\<exists>a. r = Inr a \<and> api_id a = ''a2'' \<and> healthStatus a = Healthy) \<and>
        map_option api_id (findById ''a2'' w') = Some ''a2'' \<and>
        filter (\<lambda>s. snap_apiId s = ''a2'') (snapshots w') = [])"
  by (simp add: registerApi_def Let_def findById_def createSnapshot_def truthy_def
      world1_def petstore_def baseline_def env1_def spec_users_def orders_dto_def)

subsection \<open>Deletion\<close>

lemma find_remove_first_same:
  "distinct (map f xs) \<Longrightarrow> find (\<lambda>a. f a = i) (remove_first (\<lambda>a. f a = i) xs) = None"
proof (induction xs)
  case Nil
  then show ?case by simp
next
  case (Cons x xs)
  show ?case
  proof (cases "f x = i")
    case True
    with Cons.prems have "i \<notin> f ` set xs" by auto
    then have "find (\<lambda>a. f a = i) xs = None"
      by (auto simp add: find_None_iff)
    with True show ?thesis by simp
  next
    case False
    with Cons show ?thesis by simp
  qed
qed

lemma find_remove_first_other:
  "j \<noteq> i \<Longrightarrow> find (\<lambda>a. f a = j) (remove_first (\<lambda>a. f a = i) xs) = find (\<lambda>a. f a = j) xs"
  by (induction xs) auto

lemma deleteApi_owner:
  assumes "findById i w = Some api" and "userId api = uid"
  shows "deleteApi io i uid w =
    ((case List.map_filter (rejects io) [DeleteApi, DeleteSnapshots, DeleteChangelogs] of
        [] \<Rightarrow> Inr ()
      | e # _ \<Rightarrow> Inl (Rejected e)),
     w\<lparr>apis := (case rejects io DeleteApi of
                  None \<Rightarrow> remove_first (\<lambda>a. api_id a = i) (apis w) | Some e \<Rightarrow> apis w),
       snapshots := (case rejects io DeleteSnapshots of
                  None \<Rightarrow> filter (\<lambda>s. snap_apiId s \<noteq> i) (snapshots w) | Some e \<Rightarrow> snapshots w),
       changelogs := (case rejects io DeleteChangelogs of
                  None \<Rightarrow> filter (\<lambda>c. cl_apiId c \<noteq> i) (changelogs w)
                | Some e \<Rightarrow> changelogs w)\<rparr>)"
  using assms
  by (simp add: deleteApi_def Let_def split: option.splits list.splits)

lemma deleteApi_returns_iff:
  "(case List.map_filter (rejects io) [DeleteApi, DeleteSnapshots, DeleteChangelogs] of
        [] \<Rightarrow> Inr ()
      | e # _ \<Rightarrow> Inl (Rejected e)) = Inr () \<longleftrightarrow>
     rejects io DeleteApi = None \<and> rejects io DeleteSnapshots = None \<and>
     rejects io DeleteChangelogs = None"
  by (auto simp add: List.map_filter_simps split: option.splits list.splits)

text \<open>
  Claim C9 (cascading delete), as amended. For an existing target and its owner, the
  delete issues three independent deletions: the target by its identifier, the Snapshots
  and the ChangelogEntries by the target they refer to. Each deletion that the store
  accepts takes effect and each one that it rejects changes nothing; the documents of
  other targets are never touched, and only Snapshots and ChangelogEntries of this target
  are removed. The delete returns normally exactly when the store accepts all three, and
  then the target is gone and no Snapshot and no ChangelogEntry refers to it. Identifiers
  of stored targets are distinct, as the store guarantees for \<^verbatim>\<open>_id\<close>.
\<close>

theorem deleteApi_cascade:
  assumes "distinct (map api_id (apis w))"
    and "findById i w = Some api" and "userId api = uid"
  shows "case deleteApi io i uid w of (r, w') \<Rightarrow>
     (r = Inr () \<longleftrightarrow>
        rejects io DeleteApi = None \<and> rejects io DeleteSnapshots = None \<and>
        rejects io DeleteChangelogs = None) \<and>
     (rejects io DeleteApi = None \<longrightarrow> findById i w' = None) \<and>
     (\<forall>e. rejects io DeleteApi = Some e \<longrightarrow> apis w' = apis w) \<and>
     (rejects io DeleteSnapshots = None \<longrightarrow>
        snapshots w' = filter (\<lambda>s. snap_apiId s \<noteq> i) (snapshots w)) \<and>
     (\<forall>e. rejects io DeleteSnapshots = Some e \<longrightarrow> snapshots w' = snapshots w) \<and>
     (rejects io DeleteChangelogs = None \<longrightarrow>
        changelogs w' = filter (\<lambda>c. cl_apiId c \<noteq> i) (changelogs w)) \<and>
     (\<forall>e. rejects io DeleteChangelogs = Some e \<longrightarrow> changelogs w' = changelogs w) \<and>
     (\<forall>j. j \<noteq> i \<longrightarrow> findById j w' = findById j w) \<and>
     (r = Inr () \<longrightarrow>
        findById i w' = None \<and>
        (\<forall>s \<in> set (snapshots w'). snap_apiId s \<noteq> i) \<and>
        (\<forall>c \<in> set (changelogs w'). cl_apiId c \<noteq> i))"
proof -
  have gone: "find (\<lambda>a. api_id a = i) (remove_first (\<lambda>a. api_id a = i) (apis w)) = None"
    by (rule find_remove_first_same [OF assms(1)])
  have other: "findById j
      (w\<lparr>apis := (case rejects io DeleteApi of
                  None \<Rightarrow> remove_first (\<lambda>a. api_id a = i) (apis w) | Some e \<Rightarrow> apis w),
       snapshots := S, changelogs := C\<rparr>) = findById j w" if "j \<noteq> i" for j S C
    using that by (simp add: findById_def find_remove_first_other split: option.splits)
  show ?thesis
    unfolding deleteApi_owner [OF assms(2,3)] split_conv deleteApi_returns_iff
    using other by (auto simp add: findById_def gone)
qed

text \<open>The owner deletes the only target, which has one Snapshot and one ChangelogEntry.\<close>

theorem deleteApi_cascade_witness:
  "distinct (map api_id (apis (world1\<lparr>changelogs := [entry1]\<rparr>))) \<and>
   findById ''a1'' (world1\<lparr>changelogs := [entry1]\<rparr>) = Some petstore \<and>
   userId petstore = ''u1'' \<and>
   deleteApi env1 ''a1'' ''u1'' (world1\<lparr>changelogs := [entry1]\<rparr>)
     = (Inr (), \<lparr>apis = [], snapshots = [], changelogs = [], fetchLog = []\<rparr>)"
proof -
  let ?w = "world1\<lparr>changelogs := [entry1]\<rparr>"
  have h1: "distinct (map api_id (apis ?w))"
    by (simp add: world1_def)
  have h2: "findById ''a1'' ?w = Some petstore"
    by (simp add: findById_def world1_def petstore_def)
  have h3: "userId petstore = ''u1''"
    by (simp add: petstore_def)
  have h4: "rejects env1 DeleteApi = None" "rejects env1 DeleteSnapshots = None"
    "rejects env1 DeleteChangelogs = None"
    by (simp_all add: env1_def)
  have c: "snapshots ?w = [baseline]" "changelogs ?w = [entry1]" "fetchLog ?w = []"
    "snap_apiId baseline = ''a1''" "cl_apiId entry1 = ''a1''"
    by (simp_all add: world1_def baseline_def entry1_def)
  obtain r w' where d: "deleteApi env1 ''a1'' ''u1'' ?w = (r, w')"
    by (cases "deleteApi env1 ''a1'' ''u1'' ?w")
  from deleteApi_cascade [OF h1 h2 h3, of env1] d h4 c
  have r: "r = Inr ()" and s: "snapshots w' = []" and l: "changelogs w' = []"
    and f: "findById ''a1'' w' = None"
    by simp_all
  have a: "apis w' = []" and g: "fetchLog w' = []"
    using d h2 h3 h4 c
    by (auto simp add: deleteApi_def List.map_filter_simps world1_def petstore_def)
  from r s l a g have "w' = \<lparr>apis = [], snapshots = [], changelogs = [], fetchLog = []\<rparr>"
    by simp
  with r d h1 h2 h3 show ?thesis
    by simp
qed

text \<open>
  Against C9 as stated: the store rejects the deletion of the Snapshots and accepts the
  other two; the delete throws, the target is gone, and its Snapshot stays behind.
\<close>

theorem deleteApi_orphans_counterexample:
  "findById ''a1'' (world1\<lparr>changelogs := [entry1]\<rparr>) = Some petstore \<and>
   userId petstore = ''u1'' \<and>
   (case deleteApi
           (env1\<lparr>rejects := (\<lambda>site. if site = DeleteSnapshots then Some store_error else None)\<rparr>)
           ''a1'' ''u1'' (world1\<lparr>changelogs := [entry1]\<rparr>) of
      (r, w') \<Rightarrow>
        r = Inl (Rejected store_error) \<and>
        findById ''a1'' w' = None \<and> apis w' = [] \<and>
        snapshots w' = [baseline] \<and> snap_apiId baseline = ''a1'' \<and>
        changelogs w' = [])"
  by (simp add: deleteApi_def Let_def List.map_filter_simps findById_def
      world1_def petstore_def baseline_def entry1_def env1_def)

subsection \<open>Statistics\<close>


text \<open>
  Seven days back in local time, and the cutoff in a zone whose offset never changes and
  in one whose clocks went forward within the last week.
\<close>

lemma seven_days_back:
  "(Day t - 7) * msPerDay + TimeWithinDay t = t - 7 * msPerDay"
proof -
  have "t div msPerDay * msPerDay + t mod msPerDay = t"
    by simp
  then show ?thesis
    by (simp add: Day_def TimeWithinDay_def algebra_simps)
qed

lemma sevenDaysAgo_eq:
  "sevenDaysAgo io =
     now io + localTZA io (now io) True - 604800000
       - localTZA io (now io + localTZA io (now io) True - 604800000) False"
proof -
  have "sevenDaysAgo io = UTC io (LocalTime io (now io) - 7 * msPerDay)"
    by (simp only: sevenDaysAgo_def Let_def seven_days_back)
  then show ?thesis
    by (simp add: LocalTime_def UTC_def msPerDay_def)
qed

lemma sevenDaysAgo_fixed_zone:
  "(\<And>t isUTC. localTZA io t isUTC = z) \<Longrightarrow> sevenDaysAgo io = now io - 604800000"
  by (simp add: sevenDaysAgo_eq)

lemma sevenDaysAgo_clock_change:
  "sevenDaysAgo (env1\<lparr>now := 1000000000, localTZA := summer_time\<rparr>)
     = 1000000000 - 167 * 3600000"
  by (simp add: sevenDaysAgo_eq summer_time_def)



end
